theory Spec2Isabelle
  imports Main "HOL-Library.Word"
begin

section \<open>Gotodo: the task list, its timers and its key handling (main.go)\<close>

text \<open>
  The development follows \<^verbatim>\<open>main.go\<close>: the \<^verbatim>\<open>Task\<close> and \<^verbatim>\<open>model\<close> structs, the
  key handling of \<^verbatim>\<open>Update\<close>, \<^verbatim>\<open>ensureCursorVisible\<close>, the description and timer parts
  of \<^verbatim>\<open>renderTasksView\<close>, \<^verbatim>\<open>loadTasksFromFile\<close>, \<^verbatim>\<open>saveTasksToFile\<close> and
  \<^verbatim>\<open>initialModel\<close>. The window-size branch of \<^verbatim>\<open>Update\<close> (layout arithmetic over
  rendered heights) is not part of it.
\<close>

subsection \<open>Text, time and durations\<close>

text \<open>
  A Go string is represented by the sequence of code points that \<^verbatim>\<open>[]rune(s)\<close> yields.
  Key names (\<^verbatim>\<open>msg.String()\<close>) are ASCII and are kept as HOL strings.
\<close>

type_synonym rune = nat
type_synonym gostring = "rune list"

definition str :: "string \<Rightarrow> gostring" where
  "str s = map of_char s"

text \<open>
  \<^verbatim>\<open>strings.TrimSpace\<close> removes leading and trailing white space as Unicode defines it
  (\<^verbatim>\<open>unicode.IsSpace\<close>).
\<close>

definition isSpace :: "rune \<Rightarrow> bool" where
  "isSpace r \<longleftrightarrow>
     r = 9 \<or> r = 10 \<or> r = 11 \<or> r = 12 \<or> r = 13 \<or> r = 32 \<or> r = 133 \<or> r = 160 \<or>
     r = 5760 \<or> (8192 \<le> r \<and> r \<le> 8202) \<or> r = 8232 \<or> r = 8233 \<or> r = 8239 \<or>
     r = 8287 \<or> r = 12288"

definition TrimSpace :: "gostring \<Rightarrow> gostring" where
  "TrimSpace s = rev (dropWhile isSpace (rev (dropWhile isSpace s)))"

fun Join :: "gostring list \<Rightarrow> gostring \<Rightarrow> gostring" where
  "Join [] sep = []"
| "Join [x] sep = x"
| "Join (x # y # ys) sep = x @ sep @ Join (y # ys) sep"

text \<open>
  A \<^verbatim>\<open>time.Time\<close> is the number of nanoseconds since the zero instant, so that
  \<^verbatim>\<open>IsZero\<close> is equality with 0. A \<^verbatim>\<open>time.Duration\<close> is an \<^verbatim>\<open>int64\<close> of nanoseconds:
  \<^verbatim>\<open>+=\<close> on it wraps around. \<^verbatim>\<open>time.Since(t)\<close> is \<^verbatim>\<open>time.Now().Sub(t)\<close>, and
  \<^verbatim>\<open>Sub\<close> returns the largest or smallest duration when the difference does not fit.
  The monotonic reading that Go attaches to a time is not told apart from the wall
  clock. Cursor, offsets and widths are Go \<^verbatim>\<open>int\<close>s, taken as integers.
\<close>

type_synonym Time = int
type_synonym Duration = "64 word"

definition IsZero :: "Time \<Rightarrow> bool" where
  "IsZero t \<longleftrightarrow> t = 0"

definition maxDuration :: int where
  "maxDuration = 2 ^ 63 - 1"

definition minDuration :: int where
  "minDuration = - (2 ^ 63)"

definition Sub :: "Time \<Rightarrow> Time \<Rightarrow> Duration" where
  "Sub t u =
     (if maxDuration < t - u then word_of_int maxDuration
      else if t - u < minDuration then word_of_int minDuration
      else word_of_int (t - u))"

text \<open>\<^verbatim>\<open>time.Since(t)\<close> when the clock reads \<open>now\<close>.\<close>

definition Since :: "Time \<Rightarrow> Time \<Rightarrow> Duration" where
  "Since now t = Sub now t"

text \<open>
  The clock is read once for each task that a call handles: \<open>clk i\<close> is the reading taken
  while task \<open>i\<close> is handled (by \<^verbatim>\<open>time.Since\<close>, or by \<^verbatim>\<open>time.Now\<close> for the task that is
  started).
\<close>

type_synonym Clock = "nat \<Rightarrow> Time"

subsection \<open>Tasks\<close>

text \<open>
  \<^verbatim>\<open>TaskStatus\<close> is the enumeration of the four constants; an integer outside them,
  which only an edited tasks file could hold, has no representation. A \<^verbatim>\<open>uuid.UUID\<close>
  is a number.
\<close>

datatype TaskStatus = Pending | InProgress | Paused | Completed

record Task =
  ID :: nat
  Description :: gostring
  Status :: TaskStatus
  TimeSpent :: Duration
  LastStartedAt :: Time
  CreatedAt :: Time

subsection \<open>Errors and the tasks file\<close>

text \<open>
  \<^verbatim>\<open>fmt.Errorf\<close> with \<^verbatim>\<open>%w\<close> wraps an error under a message. \<^verbatim>\<open>os.IsNotExist\<close> does not
  look through such wrapping.
\<close>

datatype Error = ErrNotExist | ErrIO | ErrJSON | Wrap string Error

fun IsNotExist :: "Error \<Rightarrow> bool" where
  "IsNotExist ErrNotExist = True"
| "IsNotExist _ = False"

definition errorSave :: string where "errorSave = ''save error''"
definition errorMarshal :: string where "errorMarshal = ''marshal tasks''"
definition errorWriteTasks :: string where "errorWriteTasks = ''write tasks''"
definition errorReadTasksFile :: string where "errorReadTasksFile = ''read tasks file''"
definition errorUnmarshalTasks :: string where "errorUnmarshalTasks = ''unmarshal tasks''"

text \<open>
  \<^verbatim>\<open>loadTasksFromFile\<close>: \<open>rd\<close> is what \<^verbatim>\<open>ioutil.ReadFile\<close> returns and \<open>unmarshal\<close> is
  \<^verbatim>\<open>json.Unmarshal\<close> into a task slice. A nil slice and an empty slice are both \<open>[]\<close>.
\<close>

definition loadTasksFromFile ::
  "(Error + 'd) \<Rightarrow> ('d \<Rightarrow> Error + Task list) \<Rightarrow> Task list \<times> Error option" where
  "loadTasksFromFile rd unmarshal =
     (case rd of
        Inl e \<Rightarrow>
          if IsNotExist e then ([], Some e)
          else ([], Some (Wrap errorReadTasksFile e))
      | Inr data \<Rightarrow>
          (case unmarshal data of
             Inl e \<Rightarrow> ([], Some (Wrap errorUnmarshalTasks e))
           | Inr ts \<Rightarrow> (ts, None)))"

text \<open>
  \<^verbatim>\<open>saveTasksToFile\<close>: \<open>marshalErr\<close> and \<open>writeErr\<close> are the answers of
  \<^verbatim>\<open>json.MarshalIndent\<close> and \<^verbatim>\<open>ioutil.WriteFile\<close>. The result is the error returned and
  the task list whose encoding was handed to \<^verbatim>\<open>WriteFile\<close>, if it got that far.
\<close>

definition saveTasksToFile ::
  "Error option \<Rightarrow> Error option \<Rightarrow> Task list \<Rightarrow> Error option \<times> Task list option" where
  "saveTasksToFile marshalErr writeErr ts =
     (case marshalErr of
        Some e \<Rightarrow> (Some (Wrap errorMarshal e), None)
      | None \<Rightarrow>
          (case writeErr of
             Some e \<Rightarrow> (Some (Wrap errorWriteTasks e), Some ts)
           | None \<Rightarrow> (None, Some ts)))"

subsection \<open>Key bindings and help text\<close>

record Binding =
  keys :: "string list"
  helpKey :: gostring
  helpDesc :: gostring

text \<open>\<^verbatim>\<open>key.Matches\<close> for one binding; no binding of the program is ever disabled.\<close>

definition Matches :: "string \<Rightarrow> Binding \<Rightarrow> bool" where
  "Matches k b \<longleftrightarrow> k \<in> set (keys b)"

record KeyMap =
  Add :: Binding
  Delete :: Binding
  Toggle :: Binding
  Complete :: Binding
  Up :: Binding
  Down :: Binding
  Quit :: Binding
  Enter :: Binding
  Esc :: Binding
  ScrollUp :: Binding
  ScrollDown :: Binding
  ToggleLineNumbers :: Binding
  ToggleCalendar :: Binding

definition NewBinding :: "string list \<Rightarrow> gostring \<Rightarrow> gostring \<Rightarrow> Binding" where
  "NewBinding ks hk d = \<lparr>keys = ks, helpKey = hk, helpDesc = d\<rparr>"

definition helpNav :: gostring where "helpNav = str ''nav''"
definition helpConfirmStay :: gostring where "helpConfirmStay = str ''confirm (stay)''"

text \<open>The bindings that \<^verbatim>\<open>initializeStyles\<close> installs.\<close>

definition initialKeyMap :: KeyMap where
  "initialKeyMap =
     \<lparr>Add = NewBinding [''a''] (str ''a'') (str ''add task''),
      Delete = NewBinding [''d''] (str ''d'') (str ''delete task''),
      Toggle = NewBinding [''s''] (str ''s'') (str ''start/pause/resume''),
      Complete = NewBinding [''c''] (str ''c'') (str ''complete task''),
      Up = NewBinding [''up''] [8593] helpNav,
      Down = NewBinding [''down''] [8595] helpNav,
      Quit = NewBinding [''q'', ''ctrl+c''] (str ''q'') (str ''quit''),
      Enter = NewBinding [''enter''] (str ''enter'') (str ''confirm''),
      Esc = NewBinding [''esc''] (str ''esc'') (str ''cancel/back''),
      ScrollUp = NewBinding [''pgup''] (str ''pgup'') (str ''scroll up''),
      ScrollDown = NewBinding [''pgdown''] (str ''pgdown'') (str ''scroll down''),
      ToggleLineNumbers = NewBinding [''n''] (str ''n'') (str ''toggle line #s''),
      ToggleCalendar = NewBinding [''j''] (str ''j'') (str ''toggle calendar (G/J)'')\<rparr>"

datatype appMode = modeViewTasks | modeAddTask

definition helpPart :: "Binding \<Rightarrow> gostring" where
  "helpPart b = helpKey b @ str '' '' @ helpDesc b"

definition generateHelp :: "KeyMap \<Rightarrow> appMode \<Rightarrow> gostring" where
  "generateHelp km md =
     Join
       (if md = modeViewTasks then
          [helpPart (Add km),
           helpPart (Delete km),
           helpKey (Up km) @ str ''/'' @ helpKey (Down km) @ str '' '' @ helpNav,
           helpPart (Toggle km),
           helpPart (Complete km),
           helpPart (ToggleLineNumbers km),
           helpPart (ToggleCalendar km),
           helpPart (Quit km)]
        else
          [helpKey (Enter km) @ str '' '' @ helpConfirmStay,
           helpPart (Esc km)])
       [32, 9474, 32]"

subsection \<open>The session state and its collaborators\<close>

text \<open>
  The text input and the viewport belong to the bubbles library. The fields the program
  reads and writes itself are record fields; \<^verbatim>\<open>SetValue("")\<close>, \<^verbatim>\<open>Focus\<close>, \<^verbatim>\<open>Blur\<close>
  and \<^verbatim>\<open>Value\<close> of the text input are the plain field operations.
\<close>

record TextInput =
  inputValue :: gostring
  inputFocused :: bool

record Viewport =
  YOffset :: int
  Height :: int
  Width :: int
  content :: gostring

datatype Cmd = CmdQuit | CmdBlink | CmdTick | CmdLib nat | CmdBatch "Cmd list"

text \<open>
  A message is a key press (whether its type is \<^verbatim>\<open>tea.KeyCtrlC\<close>, and its
  \<^verbatim>\<open>String()\<close>), a tick, or a message of a type that \<^verbatim>\<open>Update\<close> has no case for
  (a mouse event, say).
\<close>

datatype Msg = KeyMsg bool string | TickMsg | OtherMsg

record model =
  tasks :: "Task list"
  cursor :: int
  input :: TextInput
  viewport :: Viewport
  width :: int
  height :: int
  mode :: appMode
  helpMsg :: gostring
  quitting :: bool
  err :: "Error option"
  keyMap :: KeyMap
  showLineNumbers :: bool
  ready :: bool
  useJalaliCalendar :: bool

text \<open>
  One rendered row before styling: what \<^verbatim>\<open>renderTasksView\<close> computes for a task and
  then passes through lipgloss, \<^verbatim>\<open>fmt\<close>, \<^verbatim>\<open>formatDuration\<close> and the calendar conversion.
\<close>

record Row =
  rowStatus :: TaskStatus
  rowTime :: Duration
  rowCreatedAt :: Time
  rowJalali :: bool
  rowLineNumber :: "nat option"
  rowSelected :: bool
  rowDesc :: gostring
  rowWidth :: int

text \<open>
  The operations of the libraries that the program calls and whose results it does not
  look into are parameters: the viewport's \<^verbatim>\<open>SetContent\<close>, \<^verbatim>\<open>SetYOffset\<close> and
  \<^verbatim>\<open>Update\<close>, the text input's \<^verbatim>\<open>Update\<close>, \<^verbatim>\<open>lipgloss.Width\<close>, and the styling and
  joining of one row.
\<close>

record Lib =
  vpSetContent :: "gostring \<Rightarrow> Viewport \<Rightarrow> Viewport"
  vpSetYOffset :: "int \<Rightarrow> Viewport \<Rightarrow> Viewport"
  vpUpdate :: "Msg \<Rightarrow> Viewport \<Rightarrow> Viewport \<times> Cmd"
  inputUpdate :: "Msg \<Rightarrow> TextInput \<Rightarrow> TextInput \<times> Cmd"
  lipglossWidth :: "gostring \<Rightarrow> int"
  renderRow :: "Row \<Rightarrow> gostring"

text \<open>
  What one call of \<^verbatim>\<open>Update\<close> takes from outside: the clock readings of the key
  handling, those of the re-rendering, the identifier \<^verbatim>\<open>uuid.New()\<close> returns, and the
  answers of the encoder and of the file system on saving.
\<close>

record Env =
  clock :: Clock
  renderClock :: Clock
  newID :: nat
  marshalErr :: "Error option"
  writeErr :: "Error option"

subsection \<open>Rendering: the timer and the description of a row\<close>

definition statusInProgress :: gostring where
  "statusInProgress = [9654, 65039] @ str '' In Progress''"

definition statusRenderWidth :: "Lib \<Rightarrow> int" where
  "statusRenderWidth lib = lipglossWidth lib statusInProgress + 1"

definition timeRenderWidth :: "Lib \<Rightarrow> int" where
  "timeRenderWidth lib = lipglossWidth lib (str ''[00:00:00]'') + 1"

definition dateRenderWidth :: "Lib \<Rightarrow> int" where
  "dateRenderWidth lib = lipglossWidth lib (str ''(00/00)'') + 1"

definition lineNumberWidth :: "Lib \<Rightarrow> int" where
  "lineNumberWidth lib = lipglossWidth lib (str ''999. '')"

text \<open>The effective elapsed time of a row: \<^verbatim>\<open>timeDisplay\<close> in \<^verbatim>\<open>renderTasksView\<close>.\<close>

definition timeDisplay :: "Time \<Rightarrow> Task \<Rightarrow> Duration" where
  "timeDisplay now task =
     (if Status task = InProgress then
        (if \<not> IsZero (LastStartedAt task) then TimeSpent task + Since now (LastStartedAt task)
         else TimeSpent task)
      else TimeSpent task)"

definition indentStr :: "model \<Rightarrow> nat \<Rightarrow> gostring" where
  "indentStr m i = (if cursor m = int i then [10095, 32] else str ''  '')"

definition descAvailableWidth :: "Lib \<Rightarrow> model \<Rightarrow> nat \<Rightarrow> int" where
  "descAvailableWidth lib m i =
     (let w = Width (viewport m) - lipglossWidth lib (indentStr m i)
              - (if showLineNumbers m then lineNumberWidth lib else 0)
              - statusRenderWidth lib - dateRenderWidth lib - timeRenderWidth lib
              - lipglossWidth lib (str ''   '')
      in if w < 5 then 5 else w)"

text \<open>
  The truncation loop: runes are kept while the width counted so far plus the width of
  the next rune stays within the budget less the width of the dots; the first rune that
  does not fit ends the loop.
\<close>

fun truncateLoop :: "Lib \<Rightarrow> int \<Rightarrow> int \<Rightarrow> gostring \<Rightarrow> gostring" where
  "truncateLoop lib avail currentW [] = []"
| "truncateLoop lib avail currentW (r # rs) =
     (let runeW = lipglossWidth lib [r] in
      if currentW + runeW > avail - lipglossWidth lib (str ''...'') then []
      else r # truncateLoop lib avail (currentW + runeW) rs)"

definition descText :: "Lib \<Rightarrow> int \<Rightarrow> gostring \<Rightarrow> gostring" where
  "descText lib avail d =
     (if lipglossWidth lib d > avail then truncateLoop lib avail 0 d @ str ''...'' else d)"

definition taskRow :: "Lib \<Rightarrow> Clock \<Rightarrow> model \<Rightarrow> nat \<Rightarrow> Task \<Rightarrow> Row" where
  "taskRow lib clk m i task =
     \<lparr>rowStatus = Status task,
      rowTime = timeDisplay (clk i) task,
      rowCreatedAt = CreatedAt task,
      rowJalali = useJalaliCalendar m,
      rowLineNumber = (if showLineNumbers m then Some (i + 1) else None),
      rowSelected = (cursor m = int i),
      rowDesc = descText lib (descAvailableWidth lib m i) (Description task),
      rowWidth = Width (viewport m)\<rparr>"

fun taskRows :: "Lib \<Rightarrow> Clock \<Rightarrow> model \<Rightarrow> nat \<Rightarrow> Task list \<Rightarrow> Row list" where
  "taskRows lib clk m i [] = []"
| "taskRows lib clk m i (t # ts) = taskRow lib clk m i t # taskRows lib clk m (Suc i) ts"

definition renderTasksView :: "Lib \<Rightarrow> Clock \<Rightarrow> model \<Rightarrow> gostring" where
  "renderTasksView lib clk m =
     (let taskLines = map (renderRow lib) (taskRows lib clk m 0 (tasks m)) in
      if length taskLines = 0 then str '' '' else Join taskLines [10])"

text \<open>
  Whether \<^verbatim>\<open>View\<close> shows an error band, and with which error: the test
  \<^verbatim>\<open>m.err != nil && !os.IsNotExist(m.err)\<close> of both of its branches, after the early
  return for a session that is not ready.
\<close>

definition viewError :: "model \<Rightarrow> Error option" where
  "viewError m =
     (if \<not> ready m then None
      else case err m of
             None \<Rightarrow> None
           | Some e \<Rightarrow> if \<not> IsNotExist e then Some e else None)"

subsection \<open>Session start\<close>

text \<open>
  \<^verbatim>\<open>initialModel\<close>, with the result of reading the tasks file as its input. The second
  component is what is written to the standard error stream, if anything.
  \<^verbatim>\<open>viewport.New(80, 20)\<close> is the viewport of that width and height, at offset 0.
\<close>

definition initialModel ::
  "(Error + 'd) \<Rightarrow> ('d \<Rightarrow> Error + Task list) \<Rightarrow> model \<times> Error option" where
  "initialModel rd unmarshal =
     (let (loadedTasks, loadErr) = loadTasksFromFile rd unmarshal;
          logged = (case loadErr of
                      None \<Rightarrow> None
                    | Some e \<Rightarrow> if \<not> IsNotExist e then Some e else None);
          md = (if length loadedTasks = 0 \<and> loadErr = None then modeAddTask
                else modeViewTasks)
      in (\<lparr>tasks = loadedTasks,
           cursor = 0,
           input = \<lparr>inputValue = [], inputFocused = (md = modeAddTask)\<rparr>,
           viewport = \<lparr>YOffset = 0, Height = 20, Width = 80, content = []\<rparr>,
           width = 0,
           height = 0,
           mode = md,
           helpMsg = generateHelp initialKeyMap md,
           quitting = False,
           err = loadErr,
           keyMap = initialKeyMap,
           showLineNumbers = False,
           ready = False,
           useJalaliCalendar = False\<rparr>,
          logged))"

subsection \<open>The viewport follows the cursor\<close>

definition ensureCursorVisible :: "Lib \<Rightarrow> model \<Rightarrow> model" where
  "ensureCursorVisible lib m =
     (if length (tasks m) = 0 then m
      else
        let cursorLine = cursor m in
        if cursorLine < YOffset (viewport m) then
          m\<lparr>viewport := vpSetYOffset lib cursorLine (viewport m)\<rparr>
        else if cursorLine \<ge> YOffset (viewport m) + Height (viewport m) then
          m\<lparr>viewport := vpSetYOffset lib (cursorLine - Height (viewport m) + 1) (viewport m)\<rparr>
        else m)"

subsection \<open>Accrual\<close>

text \<open>
  The body of the two pausing loops: add the running interval unless the start time is
  zero, then set the status to \<open>Paused\<close>.
\<close>

definition pauseTask :: "Time \<Rightarrow> Task \<Rightarrow> Task" where
  "pauseTask now t =
     (let t1 = (if \<not> IsZero (LastStartedAt t)
                then t\<lparr>TimeSpent := TimeSpent t + Since now (LastStartedAt t)\<rparr>
                else t)
      in t1\<lparr>Status := Paused\<rparr>)"

text \<open>The loop of the quit key, from index \<open>i\<close> on.\<close>

fun pauseAll :: "Clock \<Rightarrow> nat \<Rightarrow> Task list \<Rightarrow> Task list" where
  "pauseAll clk i [] = []"
| "pauseAll clk i (t # ts) =
     (if Status t = InProgress then pauseTask (clk i) t else t) # pauseAll clk (Suc i) ts"

text \<open>The loop of the toggle key, which leaves the task at the cursor \<open>c\<close> alone.\<close>

fun pauseOthers :: "Clock \<Rightarrow> int \<Rightarrow> nat \<Rightarrow> Task list \<Rightarrow> Task list" where
  "pauseOthers clk c i [] = []"
| "pauseOthers clk c i (t # ts) =
     (if Status t = InProgress \<and> int i \<noteq> c then pauseTask (clk i) t else t)
       # pauseOthers clk c (Suc i) ts"

text \<open>The toggle key on a running task at the cursor: first \<open>Paused\<close>, then the accrual.\<close>

definition pauseCurrent :: "Time \<Rightarrow> Task \<Rightarrow> Task" where
  "pauseCurrent now t =
     (let t1 = t\<lparr>Status := Paused\<rparr> in
      if \<not> IsZero (LastStartedAt t1)
      then t1\<lparr>TimeSpent := TimeSpent t1 + Since now (LastStartedAt t1)\<rparr>
      else t1)"

text \<open>The complete key on the task at the cursor.\<close>

definition completeTask :: "Time \<Rightarrow> Task \<Rightarrow> Task" where
  "completeTask now t =
     (let t1 = (if Status t = InProgress then
                  (if \<not> IsZero (LastStartedAt t)
                   then t\<lparr>TimeSpent := TimeSpent t + Since now (LastStartedAt t)\<rparr>
                   else t)
                else t)
      in t1\<lparr>Status := Completed\<rparr>)"

subsection \<open>Update\<close>

text \<open>
  A call returns the new model, the command, and the task list handed to the file
  system, if the call saved. A branch of the key handling either returns at once or
  falls through to the common end of \<^verbatim>\<open>Update\<close>; an index below zero into the task slice
  is a run-time panic, \<open>None\<close>.
\<close>

record Result =
  resModel :: model
  resCmd :: Cmd
  resSaved :: "Task list option"

datatype Flow = Return Result | Fall model "Cmd list"

datatype ViewAction =
  ActToggleLineNumbers | ActToggleCalendar | ActQuit | ActAdd | ActDelete
  | ActUp | ActDown | ActToggle | ActComplete | ActNone

text \<open>The cases of the switch in viewing mode, in their order.\<close>

definition viewAction :: "KeyMap \<Rightarrow> string \<Rightarrow> ViewAction" where
  "viewAction km k =
     (if Matches k (ToggleLineNumbers km) then ActToggleLineNumbers
      else if Matches k (ToggleCalendar km) then ActToggleCalendar
      else if Matches k (Quit km) then ActQuit
      else if Matches k (Add km) then ActAdd
      else if Matches k (Delete km) then ActDelete
      else if Matches k (Up km) then ActUp
      else if Matches k (Down km) then ActDown
      else if Matches k (Toggle km) then ActToggle
      else if Matches k (Complete km) then ActComplete
      else ActNone)"

datatype AddAction = ActEnter | ActEsc | ActDefault

definition addAction :: "KeyMap \<Rightarrow> string \<Rightarrow> AddAction" where
  "addAction km k =
     (if Matches k (Enter km) then ActEnter
      else if Matches k (Esc km) then ActEsc
      else ActDefault)"

definition clearErr :: "bool \<Rightarrow> string \<Rightarrow> model \<Rightarrow> model" where
  "clearErr ctrlC k m =
     (case err m of
        None \<Rightarrow> m
      | Some e \<Rightarrow>
          if \<not> ctrlC \<and> k \<noteq> ''q'' then (if \<not> IsNotExist e then m\<lparr>err := None\<rparr> else m)
          else m)"

definition quitKey :: "Env \<Rightarrow> model \<Rightarrow> Flow" where
  "quitKey env m =
     (let m1 = m\<lparr>quitting := True\<rparr>;
          m2 = m1\<lparr>tasks := pauseAll (clock env) 0 (tasks m1)\<rparr>;
          (e, sv) = saveTasksToFile (marshalErr env) (writeErr env) (tasks m2);
          m3 = (case e of None \<Rightarrow> m2 | Some x \<Rightarrow> m2\<lparr>err := Some (Wrap errorSave x)\<rparr>)
      in Return \<lparr>resModel = m3, resCmd = CmdQuit, resSaved = sv\<rparr>)"

definition addKey :: "model \<Rightarrow> Flow" where
  "addKey m =
     Return \<lparr>resModel =
               m\<lparr>mode := modeAddTask,
                 input := (input m)\<lparr>inputValue := [], inputFocused := True\<rparr>,
                 helpMsg := generateHelp (keyMap m) modeAddTask\<rparr>,
             resCmd = CmdBlink, resSaved = None\<rparr>"

definition deleteKey :: "model \<Rightarrow> Flow option" where
  "deleteKey m =
     (if length (tasks m) > 0 \<and> cursor m < int (length (tasks m)) then
        if cursor m < 0 then None
        else
          let m1 = m\<lparr>tasks := take (nat (cursor m)) (tasks m)
                               @ drop (nat (cursor m) + 1) (tasks m)\<rparr> in
          if cursor m1 \<ge> int (length (tasks m1)) \<and> length (tasks m1) > 0 then
            Some (Fall (m1\<lparr>cursor := int (length (tasks m1)) - 1\<rparr>) [])
          else if length (tasks m1) = 0 then
            Some (Return \<lparr>resModel =
                            m1\<lparr>cursor := 0,
                               mode := modeAddTask,
                               input := (input m1)\<lparr>inputFocused := True\<rparr>,
                               helpMsg := generateHelp (keyMap m1) modeAddTask\<rparr>,
                          resCmd = CmdBlink, resSaved = None\<rparr>)
          else Some (Fall m1 [])
      else Some (Fall m []))"

definition upKey :: "Lib \<Rightarrow> model \<Rightarrow> Flow" where
  "upKey lib m =
     (if length (tasks m) > 0 then
        if cursor m > 0 then Fall (ensureCursorVisible lib (m\<lparr>cursor := cursor m - 1\<rparr>)) []
        else Fall m []
      else Fall m [])"

definition downKey :: "Lib \<Rightarrow> model \<Rightarrow> Flow" where
  "downKey lib m =
     (if length (tasks m) > 0 then
        if cursor m < int (length (tasks m)) - 1
        then Fall (ensureCursorVisible lib (m\<lparr>cursor := cursor m + 1\<rparr>)) []
        else Fall m []
      else Fall m [])"

definition toggleKey :: "Env \<Rightarrow> model \<Rightarrow> Flow option" where
  "toggleKey env m =
     (if length (tasks m) > 0 \<and> cursor m < int (length (tasks m)) then
        if cursor m < 0 then None
        else
          let c = nat (cursor m) in
          case Status (tasks m ! c) of
            Pending \<Rightarrow>
              (let ts = pauseOthers (clock env) (cursor m) 0 (tasks m) in
               Some (Fall (m\<lparr>tasks :=
                              ts[c := (ts ! c)\<lparr>Status := InProgress,
                                              LastStartedAt := clock env c\<rparr>]\<rparr>) []))
          | Paused \<Rightarrow>
              (let ts = pauseOthers (clock env) (cursor m) 0 (tasks m) in
               Some (Fall (m\<lparr>tasks :=
                              ts[c := (ts ! c)\<lparr>Status := InProgress,
                                              LastStartedAt := clock env c\<rparr>]\<rparr>) []))
          | InProgress \<Rightarrow>
              Some (Fall (m\<lparr>tasks :=
                             (tasks m)[c := pauseCurrent (clock env c) (tasks m ! c)]\<rparr>) [])
          | Completed \<Rightarrow> Some (Fall m [])
      else Some (Fall m []))"

definition completeKey :: "Env \<Rightarrow> model \<Rightarrow> Flow option" where
  "completeKey env m =
     (if length (tasks m) > 0 \<and> cursor m < int (length (tasks m)) then
        if cursor m < 0 then None
        else
          let c = nat (cursor m) in
          Some (Fall (m\<lparr>tasks :=
                         (tasks m)[c := completeTask (clock env c) (tasks m ! c)]\<rparr>) [])
      else Some (Fall m []))"

definition enterKey :: "Env \<Rightarrow> model \<Rightarrow> Flow" where
  "enterKey env m =
     (if TrimSpace (inputValue (input m)) \<noteq> [] then
        let newTask = \<lparr>ID = newID env,
                       Description = inputValue (input m),
                       Status = Pending,
                       TimeSpent = 0,
                       LastStartedAt = 0,
                       CreatedAt = clock env 0\<rparr>
        in Fall (m\<lparr>tasks := newTask # tasks m,
                   input := (input m)\<lparr>inputValue := []\<rparr>,
                   cursor := 0\<rparr>) []
      else Fall m [])"

definition escKey :: "model \<Rightarrow> Flow" where
  "escKey m =
     Fall (m\<lparr>mode := modeViewTasks,
             input := (input m)\<lparr>inputFocused := False, inputValue := []\<rparr>,
             helpMsg := generateHelp (keyMap m) modeViewTasks\<rparr>) []"

definition handleKey :: "Lib \<Rightarrow> Env \<Rightarrow> Msg \<Rightarrow> string \<Rightarrow> model \<Rightarrow> Flow option" where
  "handleKey lib env msg k m =
     (case mode m of
        modeViewTasks \<Rightarrow>
          (case viewAction (keyMap m) k of
             ActToggleLineNumbers \<Rightarrow>
               (let m1 = m\<lparr>showLineNumbers := \<not> showLineNumbers m\<rparr> in
                Some (Fall (m1\<lparr>viewport :=
                                 vpSetContent lib (renderTasksView lib (clock env) m1)
                                   (viewport m1)\<rparr>) []))
           | ActToggleCalendar \<Rightarrow>
               (let m1 = m\<lparr>useJalaliCalendar := \<not> useJalaliCalendar m\<rparr> in
                Some (Fall (m1\<lparr>viewport :=
                                 vpSetContent lib (renderTasksView lib (clock env) m1)
                                   (viewport m1)\<rparr>) []))
           | ActQuit \<Rightarrow> Some (quitKey env m)
           | ActAdd \<Rightarrow> Some (addKey m)
           | ActDelete \<Rightarrow> deleteKey m
           | ActUp \<Rightarrow> Some (upKey lib m)
           | ActDown \<Rightarrow> Some (downKey lib m)
           | ActToggle \<Rightarrow> toggleKey env m
           | ActComplete \<Rightarrow> completeKey env m
           | ActNone \<Rightarrow> Some (Fall m []))
      | modeAddTask \<Rightarrow>
          (case addAction (keyMap m) k of
             ActEnter \<Rightarrow> Some (enterKey env m)
           | ActEsc \<Rightarrow> Some (escKey m)
           | ActDefault \<Rightarrow>
               (let (inp, cmd) = inputUpdate lib msg (input m) in
                Some (Fall (m\<lparr>input := inp\<rparr>) [cmd]))))"

text \<open>The end of \<^verbatim>\<open>Update\<close>: bound the cursor, render again, let the viewport see the message.\<close>

definition clampCursor :: "model \<Rightarrow> model" where
  "clampCursor m =
     (if length (tasks m) > 0 then
        let m1 = (if cursor m \<ge> int (length (tasks m))
                  then m\<lparr>cursor := int (length (tasks m)) - 1\<rparr> else m)
        in if cursor m1 < 0 then m1\<lparr>cursor := 0\<rparr> else m1
      else m\<lparr>cursor := 0\<rparr>)"

definition finish :: "Lib \<Rightarrow> Env \<Rightarrow> Msg \<Rightarrow> model \<Rightarrow> Cmd list \<Rightarrow> Result" where
  "finish lib env msg m cmds =
     (let m1 = clampCursor m;
          m2 = m1\<lparr>viewport :=
                    vpSetContent lib (renderTasksView lib (renderClock env) m1) (viewport m1)\<rparr>;
          (vp, cmd) = vpUpdate lib msg (viewport m2)
      in \<lparr>resModel = m2\<lparr>viewport := vp\<rparr>,
          resCmd = CmdBatch (cmds @ [cmd]),
          resSaved = None\<rparr>)"

definition Update :: "Lib \<Rightarrow> Env \<Rightarrow> Msg \<Rightarrow> model \<Rightarrow> Result option" where
  "Update lib env msg m =
     (case msg of
        TickMsg \<Rightarrow> Some \<lparr>resModel = m, resCmd = CmdTick, resSaved = None\<rparr>
      | OtherMsg \<Rightarrow> Some (finish lib env msg m [])
      | KeyMsg ctrlC k \<Rightarrow>
          (case handleKey lib env msg k (clearErr ctrlC k m) of
             None \<Rightarrow> None
           | Some (Return r) \<Rightarrow> Some r
           | Some (Fall m' cmds) \<Rightarrow> Some (finish lib env msg m' cmds)))"

subsection \<open>Observing a session\<close>

text \<open>The number of running tasks, as \<^verbatim>\<open>renderStatsBar\<close> counts it.\<close>

definition inProgressCount :: "Task list \<Rightarrow> nat" where
  "inProgressCount ts = length (filter (\<lambda>t. Status t = InProgress) ts)"

definition atMostOneInProgress :: "Task list \<Rightarrow> bool" where
  "atMostOneInProgress ts \<longleftrightarrow> inProgressCount ts \<le> 1"

text \<open>
  A sequence of presses of the key \<open>k\<close>, each after the cursor has been put at some
  position, with the environment of each call. The result lists the model after each
  press; it is \<open>None\<close> when a call panics.
\<close>

fun pressAt :: "Lib \<Rightarrow> string \<Rightarrow> model \<Rightarrow> (int \<times> Env) list \<Rightarrow> model list option" where
  "pressAt lib k m [] = Some []"
| "pressAt lib k m ((c, env) # rest) =
     (case Update lib env (KeyMsg False k) (m\<lparr>cursor := c\<rparr>) of
        None \<Rightarrow> None
      | Some r \<Rightarrow>
          (case pressAt lib k (resModel r) rest of
             None \<Rightarrow> None
           | Some ms \<Rightarrow> Some (resModel r # ms)))"

subsection \<open>Concrete collaborators and sessions\<close>

text \<open>
  The simplest collaborators: a viewport that stores what it is given and ignores
  messages, a text input that ignores messages, every rune one column wide, and a row
  rendered as its description alone.
\<close>

definition plainLib :: Lib where
  "plainLib =
     \<lparr>vpSetContent = (\<lambda>s vp. vp\<lparr>content := s\<rparr>),
      vpSetYOffset = (\<lambda>n vp. vp\<lparr>YOffset := n\<rparr>),
      vpUpdate = (\<lambda>msg vp. (vp, CmdLib 0)),
      inputUpdate = (\<lambda>msg inp. (inp, CmdLib 1)),
      lipglossWidth = (\<lambda>s. int (length s)),
      renderRow = rowDesc\<rparr>"

text \<open>An environment whose clock reads \<open>now\<close> throughout and whose saving succeeds.\<close>

definition envAt :: "Time \<Rightarrow> Env" where
  "envAt now =
     \<lparr>clock = (\<lambda>i. now), renderClock = (\<lambda>i. now), newID = 7,
      marshalErr = None, writeErr = None\<rparr>"

definition taskWith :: "TaskStatus \<Rightarrow> Duration \<Rightarrow> Time \<Rightarrow> Task" where
  "taskWith st spent started =
     \<lparr>ID = 1, Description = str ''Buy milk'', Status = st, TimeSpent = spent,
      LastStartedAt = started, CreatedAt = 1000\<rparr>"

text \<open>A session in the given mode over the given tasks, cursor, viewport offset and height.\<close>

definition sessionOf :: "appMode \<Rightarrow> Task list \<Rightarrow> int \<Rightarrow> int \<Rightarrow> int \<Rightarrow> model" where
  "sessionOf md ts c off h =
     \<lparr>tasks = ts,
      cursor = c,
      input = \<lparr>inputValue = str ''Buy milk'', inputFocused = (md = modeAddTask)\<rparr>,
      viewport = \<lparr>YOffset = off, Height = h, Width = 80, content = []\<rparr>,
      width = 84,
      height = 30,
      mode = md,
      helpMsg = generateHelp initialKeyMap md,
      quitting = False,
      err = None,
      keyMap = initialKeyMap,
      showLineNumbers = False,
      ready = True,
      useJalaliCalendar = False\<rparr>"

subsection \<open>Widths by rune and by character\<close>




subsection \<open>A viewport that scrolls\<close>

text \<open>
  A viewport in the manner of the bubbles viewport: its content is split into lines at
  the newlines, its offset is kept between 0 and the number of lines less the height,
  \<^verbatim>\<open>SetContent\<close> goes to the bottom when the offset has fallen off the content, and
  \<^verbatim>\<open>Update\<close> scrolls by a line on the up and down keys and by a page on the page
  keys. The other keys of its key map, the mouse and the frame of its style are left out.
\<close>

definition lineCount :: "gostring \<Rightarrow> int" where
  "lineCount s = 1 + int (length (filter (\<lambda>r. r = 10) s))"

definition maxYOffset :: "Viewport \<Rightarrow> int" where
  "maxYOffset vp = max 0 (lineCount (content vp) - Height vp)"

definition scrollTo :: "int \<Rightarrow> Viewport \<Rightarrow> Viewport" where
  "scrollTo n vp = vp\<lparr>YOffset := max 0 (min n (maxYOffset vp))\<rparr>"

definition scrollingSetContent :: "gostring \<Rightarrow> Viewport \<Rightarrow> Viewport" where
  "scrollingSetContent s vp =
     (let vp1 = vp\<lparr>content := s\<rparr> in
      if YOffset vp1 > lineCount s - 1 then scrollTo (maxYOffset vp1) vp1 else vp1)"

definition scrollingUpdate :: "Msg \<Rightarrow> Viewport \<Rightarrow> Viewport \<times> Cmd" where
  "scrollingUpdate msg vp =
     (case msg of
        KeyMsg ctrlC k \<Rightarrow>
          (if k = ''pgdown'' then scrollTo (YOffset vp + Height vp) vp
           else if k = ''pgup'' then scrollTo (YOffset vp - Height vp) vp
           else if k = ''down'' then scrollTo (YOffset vp + 1) vp
           else if k = ''up'' then scrollTo (YOffset vp - 1) vp
           else vp,
           CmdLib 0)
      | TickMsg \<Rightarrow> (vp, CmdLib 0)
      | OtherMsg \<Rightarrow> (vp, CmdLib 0))"

definition scrollingLib :: Lib where
  "scrollingLib =
     plainLib\<lparr>vpSetContent := scrollingSetContent,
              vpSetYOffset := scrollTo,
              vpUpdate := scrollingUpdate\<rparr>"

subsection \<open>Sessions in progress\<close>

text \<open>
  A key message whose type is \<^verbatim>\<open>tea.KeyCtrlC\<close> prints as \<^verbatim>\<open>ctrl+c\<close>, with
  \<^verbatim>\<open>alt+\<close> before it when the alt key is held, and no other key message does.
\<close>

fun wellFormedMsg :: "Msg \<Rightarrow> bool" where
  "wellFormedMsg (KeyMsg ctrlC k) = (ctrlC \<longleftrightarrow> (k = ''ctrl+c'' \<or> k = ''alt+ctrl+c''))"
| "wellFormedMsg TickMsg = True"
| "wellFormedMsg OtherMsg = True"

text \<open>
  The sessions that a run of the program goes through: the model of \<^verbatim>\<open>initialModel\<close>,
  whatever the tasks file holds, and every model that \<^verbatim>\<open>Update\<close> returns from one of
  them.
\<close>

inductive reached :: "Lib \<Rightarrow> model \<Rightarrow> bool" for lib :: Lib where
  start: "reached lib (fst (initialModel (rd :: Error + unit) unmarshal))"
| step: "reached lib m \<Longrightarrow> wellFormedMsg msg \<Longrightarrow> Update lib env msg m = Some r
         \<Longrightarrow> reached lib (resModel r)"

text \<open>The session that starts from a tasks file holding the given tasks.\<close>

definition startWith :: "Task list \<Rightarrow> model" where
  "startWith ts = fst (initialModel (Inr ()) (\<lambda>d. Inr ts))"

section \<open>Properties\<close>

subsection \<open>The pausing loops\<close>

lemma Status_pauseTask [simp]: "Status (pauseTask now t) = Paused"
  by (simp add: pauseTask_def Let_def)

lemma pauseTask_eq_pauseCurrent: "pauseTask now t = pauseCurrent now t"
  by (simp add: pauseTask_def pauseCurrent_def Let_def)

lemma length_pauseAll [simp]: "length (pauseAll clk i ts) = length ts"
  by (induction ts arbitrary: i) simp_all

lemma length_pauseOthers [simp]: "length (pauseOthers clk c i ts) = length ts"
  by (induction ts arbitrary: i) simp_all

lemma nth_pauseAll:
  "j < length ts \<Longrightarrow>
   pauseAll clk i ts ! j =
     (if Status (ts ! j) = InProgress then pauseTask (clk (i + j)) (ts ! j) else ts ! j)"
proof (induction ts arbitrary: i j)
  case Nil
  then show ?case by simp
next
  case (Cons t ts)
  show ?case
  proof (cases j)
    case 0
    then show ?thesis by simp
  next
    case (Suc n)
    with Cons.prems have "n < length ts" by simp
    from Cons.IH [OF this, of "Suc i"] Suc show ?thesis by simp
  qed
qed

lemma nth_pauseOthers:
  "j < length ts \<Longrightarrow>
   pauseOthers clk c i ts ! j =
     (if Status (ts ! j) = InProgress \<and> int (i + j) \<noteq> c
      then pauseTask (clk (i + j)) (ts ! j) else ts ! j)"
proof (induction ts arbitrary: i j)
  case Nil
  then show ?case by simp
next
  case (Cons t ts)
  show ?case
  proof (cases j)
    case 0
    then show ?thesis by simp
  next
    case (Suc n)
    with Cons.prems have "n < length ts" by simp
    from Cons.IH [OF this, of "Suc i"] Suc show ?thesis by simp
  qed
qed

lemma inProgressCount_Nil [simp]: "inProgressCount [] = 0"
  by (simp add: inProgressCount_def)

lemma inProgressCount_Cons [simp]:
  "inProgressCount (t # ts) =
     (if Status t = InProgress then Suc (inProgressCount ts) else inProgressCount ts)"
  by (simp add: inProgressCount_def)

lemma inProgressCount_zero_iff:
  "inProgressCount ts = 0 \<longleftrightarrow> (\<forall>t \<in> set ts. Status t \<noteq> InProgress)"
  by (induction ts) simp_all

lemma inProgressCount_pauseAll [simp]: "inProgressCount (pauseAll clk i ts) = 0"
  by (induction ts arbitrary: i) simp_all

lemma inProgressCount_pauseOthers:
  "(\<And>j. j < length ts \<Longrightarrow> int (i + j) = c \<Longrightarrow> Status (ts ! j) \<noteq> InProgress) \<Longrightarrow>
   inProgressCount (pauseOthers clk c i ts) = 0"
proof (induction ts arbitrary: i)
  case Nil
  then show ?case by simp
next
  case (Cons t ts)
  have "inProgressCount (pauseOthers clk c (Suc i) ts) = 0"
  proof (rule Cons.IH)
    fix j assume "j < length ts" "int (Suc i + j) = c"
    with Cons.prems [of "Suc j"] show "Status (ts ! j) \<noteq> InProgress" by simp
  qed
  moreover have "int i = c \<Longrightarrow> Status t \<noteq> InProgress"
    using Cons.prems [of 0] by simp
  ultimately show ?case by auto
qed

lemma inProgressCount_update_le:
  "inProgressCount (ts[n := x]) \<le> Suc (inProgressCount ts)"
  by (induction ts arbitrary: n) (auto split: nat.splits)

lemma inProgressCount_update_other:
  "Status x \<noteq> InProgress \<Longrightarrow> inProgressCount (ts[n := x]) \<le> inProgressCount ts"
  by (induction ts arbitrary: n) (auto split: nat.splits)

subsection \<open>What the parts of Update leave alone\<close>

lemma clearErr_fields [simp]:
  "tasks (clearErr b k m) = tasks m"
  "cursor (clearErr b k m) = cursor m"
  "mode (clearErr b k m) = mode m"
  "keyMap (clearErr b k m) = keyMap m"
  "input (clearErr b k m) = input m"
  "viewport (clearErr b k m) = viewport m"
  by (simp_all add: clearErr_def split: option.splits)

lemma err_clearErr:
  "err (clearErr b k m) = err m \<or>
   (err (clearErr b k m) = None \<and> (\<exists>e. err m = Some e \<and> \<not> IsNotExist e))"
  by (simp add: clearErr_def split: option.splits)

lemma clampCursor_fields [simp]:
  "tasks (clampCursor m) = tasks m"
  "mode (clampCursor m) = mode m"
  "keyMap (clampCursor m) = keyMap m"
  "err (clampCursor m) = err m"
  by (simp_all add: clampCursor_def Let_def)

lemma clampCursor_id:
  "0 \<le> cursor m \<Longrightarrow> cursor m < int (length (tasks m)) \<Longrightarrow> clampCursor m = m"
  by (auto simp: clampCursor_def Let_def)

lemma finish_fields [simp]:
  "tasks (resModel (finish lib env msg m cmds)) = tasks m"
  "mode (resModel (finish lib env msg m cmds)) = mode m"
  "keyMap (resModel (finish lib env msg m cmds)) = keyMap m"
  "err (resModel (finish lib env msg m cmds)) = err m"
  "cursor (resModel (finish lib env msg m cmds)) = cursor (clampCursor m)"
  "resSaved (finish lib env msg m cmds) = None"
  by (simp_all add: finish_def Let_def split_def)

lemma finish_frame:
  "(resModel (finish lib env msg m cmds))\<lparr>viewport := v\<rparr> = (clampCursor m)\<lparr>viewport := v\<rparr>"
  by (simp add: finish_def Let_def split_def)

lemma Update_KeyMsg:
  "Update lib env (KeyMsg b k) m =
     (case handleKey lib env (KeyMsg b k) k (clearErr b k m) of
        None \<Rightarrow> None
      | Some (Return r) \<Rightarrow> Some r
      | Some (Fall m' cmds) \<Rightarrow> Some (finish lib env (KeyMsg b k) m' cmds))"
  by (simp add: Update_def)

lemma handleKey_view:
  "mode m = modeViewTasks \<Longrightarrow> viewAction (keyMap m) k = a \<Longrightarrow>
   handleKey lib env msg k (clearErr b k m) =
     (case a of
        ActToggleLineNumbers \<Rightarrow>
          (let m1 = (clearErr b k m)\<lparr>showLineNumbers := \<not> showLineNumbers (clearErr b k m)\<rparr> in
           Some (Fall (m1\<lparr>viewport :=
                            vpSetContent lib (renderTasksView lib (clock env) m1)
                              (viewport m1)\<rparr>) []))
      | ActToggleCalendar \<Rightarrow>
          (let m1 = (clearErr b k m)\<lparr>useJalaliCalendar := \<not> useJalaliCalendar (clearErr b k m)\<rparr> in
           Some (Fall (m1\<lparr>viewport :=
                            vpSetContent lib (renderTasksView lib (clock env) m1)
                              (viewport m1)\<rparr>) []))
      | ActQuit \<Rightarrow> Some (quitKey env (clearErr b k m))
      | ActAdd \<Rightarrow> Some (addKey (clearErr b k m))
      | ActDelete \<Rightarrow> deleteKey (clearErr b k m)
      | ActUp \<Rightarrow> Some (upKey lib (clearErr b k m))
      | ActDown \<Rightarrow> Some (downKey lib (clearErr b k m))
      | ActToggle \<Rightarrow> toggleKey env (clearErr b k m)
      | ActComplete \<Rightarrow> completeKey env (clearErr b k m)
      | ActNone \<Rightarrow> Some (Fall (clearErr b k m) []))"
  by (simp add: handleKey_def)

subsection \<open>The toggle and complete keys, case by case\<close>

lemma toggleKey_start:
  assumes "0 \<le> cursor m" and "cursor m < int (length (tasks m))"
    and "Status (tasks m ! nat (cursor m)) = Pending \<or> Status (tasks m ! nat (cursor m)) = Paused"
  shows "toggleKey env m =
     Some (Fall (m\<lparr>tasks :=
                    (pauseOthers (clock env) (cursor m) 0 (tasks m))
                      [nat (cursor m) :=
                         (tasks m ! nat (cursor m))
                           \<lparr>Status := InProgress,
                            LastStartedAt := clock env (nat (cursor m))\<rparr>]\<rparr>) [])"
  using assms by (auto simp: toggleKey_def Let_def nth_pauseOthers)

lemma toggleKey_pause:
  assumes "0 \<le> cursor m" and "cursor m < int (length (tasks m))"
    and "Status (tasks m ! nat (cursor m)) = InProgress"
  shows "toggleKey env m =
     Some (Fall (m\<lparr>tasks :=
                    (tasks m)[nat (cursor m) :=
                      pauseCurrent (clock env (nat (cursor m))) (tasks m ! nat (cursor m))]\<rparr>) [])"
  using assms by (auto simp: toggleKey_def Let_def)

lemma toggleKey_completed:
  assumes "0 \<le> cursor m" and "cursor m < int (length (tasks m))"
    and "Status (tasks m ! nat (cursor m)) = Completed"
  shows "toggleKey env m = Some (Fall m [])"
  using assms by (auto simp: toggleKey_def Let_def)

lemma toggleKey_outside:
  assumes "\<not> cursor m < int (length (tasks m))"
  shows "toggleKey env m = Some (Fall m [])"
  using assms by (auto simp: toggleKey_def)

lemma completeKey_inside:
  assumes "0 \<le> cursor m" and "cursor m < int (length (tasks m))"
  shows "completeKey env m =
     Some (Fall (m\<lparr>tasks :=
                    (tasks m)[nat (cursor m) :=
                      completeTask (clock env (nat (cursor m))) (tasks m ! nat (cursor m))]\<rparr>) [])"
  using assms by (auto simp: completeKey_def Let_def)

lemma completeKey_outside:
  assumes "\<not> cursor m < int (length (tasks m))"
  shows "completeKey env m = Some (Fall m [])"
  using assms by (auto simp: completeKey_def)

lemma Status_pauseCurrent [simp]: "Status (pauseCurrent now t) = Paused"
  by (simp add: pauseCurrent_def Let_def)

lemma inProgressCount_pauseOthers_cursor:
  assumes "Status (ts ! nat c) \<noteq> InProgress"
  shows "inProgressCount ((pauseOthers clk c 0 ts)[n := x]) \<le> 1"
proof -
  have "inProgressCount (pauseOthers clk c 0 ts) = 0"
  proof (rule inProgressCount_pauseOthers)
    fix j assume "j < length ts" "int (0 + j) = c"
    then have "nat c = j" by auto
    with assms show "Status (ts ! j) \<noteq> InProgress" by simp
  qed
  with inProgressCount_update_le [of "pauseOthers clk c 0 ts" n x] show ?thesis by simp
qed

lemma toggleKey_invariant:
  assumes "0 \<le> cursor m"
  shows "\<exists>m'. toggleKey env m = Some (Fall m' []) \<and> mode m' = mode m \<and> keyMap m' = keyMap m
           \<and> length (tasks m') = length (tasks m)
           \<and> (atMostOneInProgress (tasks m) \<longrightarrow> atMostOneInProgress (tasks m'))"
proof (cases "cursor m < int (length (tasks m))")
  case False
  then show ?thesis by (simp add: toggleKey_outside)
next
  case inside: True
  let ?c = "nat (cursor m)"
  show ?thesis
  proof (cases "Status (tasks m ! ?c)")
    case Completed
    with assms inside show ?thesis by (simp add: toggleKey_completed)
  next
    case InProgress
    have "inProgressCount ((tasks m)[?c := pauseCurrent (clock env ?c) (tasks m ! ?c)])
            \<le> inProgressCount (tasks m)"
      by (rule inProgressCount_update_other) simp
    with assms inside InProgress show ?thesis
      by (simp add: toggleKey_pause atMostOneInProgress_def)
  next
    case Pending
    then have "Status (tasks m ! ?c) \<noteq> InProgress" by simp
    from inProgressCount_pauseOthers_cursor [OF this] assms inside Pending show ?thesis
      by (simp add: toggleKey_start atMostOneInProgress_def)
  next
    case Paused
    then have "Status (tasks m ! ?c) \<noteq> InProgress" by simp
    from inProgressCount_pauseOthers_cursor [OF this] assms inside Paused show ?thesis
      by (simp add: toggleKey_start atMostOneInProgress_def)
  qed
qed

subsection \<open>Durations\<close>

lemma Since_in_range:
  "minDuration \<le> now - t \<Longrightarrow> now - t \<le> maxDuration \<Longrightarrow> Since now t = word_of_int (now - t)"
  by (simp add: Since_def Sub_def)

lemma Since_five_seconds: "Since (t0 + 5000000000) t0 = 5000000000"
  by (simp add: Since_def Sub_def maxDuration_def minDuration_def)

subsection \<open>The concrete sessions\<close>

lemma sessionOf_fields [simp]:
  "tasks (sessionOf md ts c off h) = ts"
  "cursor (sessionOf md ts c off h) = c"
  "mode (sessionOf md ts c off h) = md"
  "keyMap (sessionOf md ts c off h) = initialKeyMap"
  "err (sessionOf md ts c off h) = None"
  "input (sessionOf md ts c off h) =
     \<lparr>inputValue = str ''Buy milk'', inputFocused = (md = modeAddTask)\<rparr>"
  "viewport (sessionOf md ts c off h) = \<lparr>YOffset = off, Height = h, Width = 80, content = []\<rparr>"
  by (simp_all add: sessionOf_def)

lemma viewAction_initialKeyMap [simp]:
  "viewAction initialKeyMap ''q'' = ActQuit"
  "viewAction initialKeyMap ''up'' = ActUp"
  "viewAction initialKeyMap ''down'' = ActDown"
  "viewAction initialKeyMap ''s'' = ActToggle"
  "viewAction initialKeyMap ''c'' = ActComplete"
  by (simp_all add: viewAction_def initialKeyMap_def Matches_def NewBinding_def)

lemma addAction_initialKeyMap [simp]: "addAction initialKeyMap ''enter'' = ActEnter"
  by (simp add: addAction_def initialKeyMap_def Matches_def NewBinding_def)

lemma taskWith_fields [simp]:
  "Status (taskWith st spent started) = st"
  "TimeSpent (taskWith st spent started) = spent"
  "LastStartedAt (taskWith st spent started) = started"
  by (simp_all add: taskWith_def)

lemma envAt_fields [simp]:
  "clock (envAt now) = (\<lambda>i. now)"
  "renderClock (envAt now) = (\<lambda>i. now)"
  "marshalErr (envAt now) = None"
  "writeErr (envAt now) = None"
  "newID (envAt now) = 7"
  by (simp_all add: envAt_def)

subsection \<open>At most one running task\<close>

lemma Update_toggle_step:
  assumes "mode m = modeViewTasks" and "viewAction (keyMap m) k = ActToggle" and "0 \<le> cursor m"
  shows "\<exists>r. Update lib env (KeyMsg b k) m = Some r
           \<and> mode (resModel r) = modeViewTasks \<and> keyMap (resModel r) = keyMap m
           \<and> length (tasks (resModel r)) = length (tasks m)
           \<and> (atMostOneInProgress (tasks m) \<longrightarrow> atMostOneInProgress (tasks (resModel r)))"
proof -
  have "0 \<le> cursor (clearErr b k m)" using assms(3) by simp
  from toggleKey_invariant [OF this, of env] obtain m' where
    m': "toggleKey env (clearErr b k m) = Some (Fall m' [])" "mode m' = mode m"
      "keyMap m' = keyMap m" "length (tasks m') = length (tasks m)"
      "atMostOneInProgress (tasks m) \<longrightarrow> atMostOneInProgress (tasks m')"
    by auto
  have "Update lib env (KeyMsg b k) m = Some (finish lib env (KeyMsg b k) m' [])"
    by (simp add: Update_KeyMsg handleKey_view [OF assms(1,2)] m'(1))
  with m' assms(1) show ?thesis by simp
qed

lemma pressAt_toggle:
  assumes "atMostOneInProgress (tasks m)" and "mode m = modeViewTasks"
    and "viewAction (keyMap m) k = ActToggle" and "\<forall>(c, env) \<in> set steps. 0 \<le> c"
  shows "\<exists>ms. pressAt lib k m steps = Some ms \<and> length ms = length steps
           \<and> (\<forall>m' \<in> set ms. atMostOneInProgress (tasks m'))"
  using assms
proof (induction steps arbitrary: m)
  case Nil
  then show ?case by simp
next
  case (Cons step steps)
  obtain c env where step: "step = (c, env)" by (cases step)
  let ?m = "m\<lparr>cursor := c\<rparr>"
  have c: "0 \<le> cursor ?m" using Cons.prems(4) step by simp
  have "mode ?m = modeViewTasks" "viewAction (keyMap ?m) k = ActToggle"
    using Cons.prems by simp_all
  from Update_toggle_step [OF this c, of lib env False] Cons.prems(1) obtain r where
    r: "Update lib env (KeyMsg False k) ?m = Some r" "mode (resModel r) = modeViewTasks"
      "keyMap (resModel r) = keyMap m" "atMostOneInProgress (tasks (resModel r))"
    by auto
  have "\<exists>ms. pressAt lib k (resModel r) steps = Some ms \<and> length ms = length steps
           \<and> (\<forall>m' \<in> set ms. atMostOneInProgress (tasks m'))"
    using Cons.prems r by (intro Cons.IH) simp_all
  then obtain ms where ms: "pressAt lib k (resModel r) steps = Some ms"
      "length ms = length steps" "\<forall>m' \<in> set ms. atMostOneInProgress (tasks m')"
    by auto
  with r step show ?case by simp
qed

lemma Update_toggle_start:
  assumes "mode m = modeViewTasks" and "viewAction (keyMap m) k = ActToggle"
    and "0 \<le> c" and "c < int (length (tasks m))"
    and "Status (tasks m ! nat c) = Pending \<or> Status (tasks m ! nat c) = Paused"
  shows "\<exists>r. Update lib env (KeyMsg b k) (m\<lparr>cursor := c\<rparr>) = Some r
           \<and> length (tasks (resModel r)) = length (tasks m)
           \<and> (\<forall>j < length (tasks m).
                 tasks (resModel r) ! j =
                   (if j = nat c
                    then (tasks m ! j)\<lparr>Status := InProgress, LastStartedAt := clock env j\<rparr>
                    else if Status (tasks m ! j) = InProgress
                    then pauseCurrent (clock env j) (tasks m ! j)
                    else tasks m ! j))"
proof -
  let ?m = "clearErr b k (m\<lparr>cursor := c\<rparr>)"
  have "toggleKey env ?m =
     Some (Fall (?m\<lparr>tasks :=
                    (pauseOthers (clock env) (cursor ?m) 0 (tasks ?m))
                      [nat (cursor ?m) :=
                         (tasks ?m ! nat (cursor ?m))
                           \<lparr>Status := InProgress,
                            LastStartedAt := clock env (nat (cursor ?m))\<rparr>]\<rparr>) [])"
    by (rule toggleKey_start) (use assms in simp_all)
  moreover have "handleKey lib env (KeyMsg b k) k ?m = toggleKey env ?m"
    by (rule handleKey_view [where a = ActToggle, simplified]) (use assms in simp_all)
  ultimately have "Update lib env (KeyMsg b k) (m\<lparr>cursor := c\<rparr>) =
     Some (finish lib env (KeyMsg b k)
            (?m\<lparr>tasks :=
                    (pauseOthers (clock env) c 0 (tasks m))
                      [nat c :=
                         (tasks m ! nat c)
                           \<lparr>Status := InProgress, LastStartedAt := clock env (nat c)\<rparr>]\<rparr>) [])"
    by (simp add: Update_KeyMsg)
  moreover have "\<And>j. j < length (tasks m) \<Longrightarrow> j \<noteq> nat c \<Longrightarrow> int j \<noteq> c"
    by auto
  ultimately show ?thesis
    by (auto simp: nth_list_update nth_pauseOthers pauseTask_eq_pauseCurrent)
qed

text \<open>
  C1. From a store with at most one running task, every sequence of toggle presses, with
  the cursor anywhere before each press, runs without a panic and leaves at most one
  running task after each press. A press that starts a task pauses every other running
  task in the same call, with the accrual of the pausing transition.
\<close>

theorem toggle_sequence_exclusive:
  assumes "atMostOneInProgress (tasks m)" and "mode m = modeViewTasks"
    and "viewAction (keyMap m) k = ActToggle" and "\<forall>(c, env) \<in> set steps. 0 \<le> c"
  shows "(\<exists>ms. pressAt lib k m steps = Some ms \<and> length ms = length steps
            \<and> (\<forall>m' \<in> set ms. atMostOneInProgress (tasks m')))
         \<and> (\<forall>c env. 0 \<le> c \<and> c < int (length (tasks m))
               \<and> (Status (tasks m ! nat c) = Pending \<or> Status (tasks m ! nat c) = Paused) \<longrightarrow>
              (\<exists>r. Update lib env (KeyMsg False k) (m\<lparr>cursor := c\<rparr>) = Some r
                 \<and> length (tasks (resModel r)) = length (tasks m)
                 \<and> (\<forall>j < length (tasks m).
                       tasks (resModel r) ! j =
                         (if j = nat c
                          then (tasks m ! j)\<lparr>Status := InProgress, LastStartedAt := clock env j\<rparr>
                          else if Status (tasks m ! j) = InProgress
                          then pauseCurrent (clock env j) (tasks m ! j)
                          else tasks m ! j))))"
proof (intro conjI allI impI)
  show "\<exists>ms. pressAt lib k m steps = Some ms \<and> length ms = length steps
            \<and> (\<forall>m' \<in> set ms. atMostOneInProgress (tasks m'))"
    using assms by (rule pressAt_toggle)
next
  fix c env
  assume "0 \<le> c \<and> c < int (length (tasks m))
               \<and> (Status (tasks m ! nat c) = Pending \<or> Status (tasks m ! nat c) = Paused)"
  with assms(2,3)
  show "\<exists>r. Update lib env (KeyMsg False k) (m\<lparr>cursor := c\<rparr>) = Some r
                 \<and> length (tasks (resModel r)) = length (tasks m)
                 \<and> (\<forall>j < length (tasks m).
                       tasks (resModel r) ! j =
                         (if j = nat c
                          then (tasks m ! j)\<lparr>Status := InProgress, LastStartedAt := clock env j\<rparr>
                          else if Status (tasks m ! j) = InProgress
                          then pauseCurrent (clock env j) (tasks m ! j)
                          else tasks m ! j))"
    by (intro Update_toggle_start) blast+
qed

theorem toggle_sequence_exclusive_witness:
  "atMostOneInProgress
     (tasks (sessionOf modeViewTasks [taskWith InProgress 0 1000, taskWith Pending 0 0] 0 0 20))
   \<and> (\<exists>ms. pressAt plainLib ''s''
              (sessionOf modeViewTasks [taskWith InProgress 0 1000, taskWith Pending 0 0] 0 0 20)
              [(1, envAt 5000), (0, envAt 6000)] = Some ms
          \<and> length ms = 2
          \<and> (\<forall>m' \<in> set ms. atMostOneInProgress (tasks m')))"
proof -
  let ?m = "sessionOf modeViewTasks [taskWith InProgress 0 1000, taskWith Pending 0 0] 0 0 20"
  have h1: "atMostOneInProgress (tasks ?m)"
    by (simp add: atMostOneInProgress_def)
  have h2: "mode ?m = modeViewTasks" by simp
  have h3: "viewAction (keyMap ?m) ''s'' = ActToggle" by simp
  have h4: "\<forall>(c, env) \<in> set [(1::int, envAt 5000), (0, envAt 6000)]. 0 \<le> c" by simp
  have "\<exists>ms. pressAt plainLib ''s'' ?m [(1, envAt 5000), (0, envAt 6000)] = Some ms
          \<and> length ms = length [(1::int, envAt 5000), (0, envAt 6000)]
          \<and> (\<forall>m' \<in> set ms. atMostOneInProgress (tasks m'))"
    using toggle_sequence_exclusive [OF h1 h2 h3 h4, of plainLib] by (rule conjunct1)
  with h1 show ?thesis by (simp del: pressAt.simps add: numeral_2_eq_2)
qed

subsection \<open>Pausing the running task\<close>

lemma Update_toggle_pause:
  assumes "mode m = modeViewTasks" and "viewAction (keyMap m) k = ActToggle"
    and "0 \<le> cursor m" and "cursor m < int (length (tasks m))"
    and "Status (tasks m ! nat (cursor m)) = InProgress"
  shows "Update lib env (KeyMsg b k) m =
     Some (finish lib env (KeyMsg b k)
            ((clearErr b k m)\<lparr>tasks :=
               (tasks m)[nat (cursor m) :=
                  pauseCurrent (clock env (nat (cursor m))) (tasks m ! nat (cursor m))]\<rparr>) [])"
proof -
  let ?m = "clearErr b k m"
  have "toggleKey env ?m =
     Some (Fall (?m\<lparr>tasks :=
                    (tasks ?m)[nat (cursor ?m) :=
                      pauseCurrent (clock env (nat (cursor ?m))) (tasks ?m ! nat (cursor ?m))]\<rparr>) [])"
    by (rule toggleKey_pause) (use assms in simp_all)
  then show ?thesis
    by (simp add: Update_KeyMsg handleKey_view [OF assms(1,2)])
qed

lemma pauseCurrent_eq:
  "pauseCurrent now t =
     t\<lparr>Status := Paused,
       TimeSpent := (if IsZero (LastStartedAt t) then TimeSpent t
                     else TimeSpent t + Since now (LastStartedAt t))\<rparr>"
  by (simp add: pauseCurrent_def Let_def)

text \<open>
  C2 as stated fails for a running task whose start time is zero: the toggle key adds
  nothing to its time spent, neither the difference between the clock and the start
  time nor the duration \<^verbatim>\<open>time.Since\<close> would make of it. The clock reads a moment in
  the year 2026.
\<close>

theorem toggle_zero_start_counterexample:
  "TimeSpent
     (tasks (resModel (the (Update plainLib (envAt 63900000000000000000) (KeyMsg False ''s'')
                              (sessionOf modeViewTasks [taskWith InProgress 0 0] 0 0 20)))) ! 0)
   \<noteq> TimeSpent (taskWith InProgress 0 0)
       + word_of_int (63900000000000000000 - LastStartedAt (taskWith InProgress 0 0))
   \<and> TimeSpent
     (tasks (resModel (the (Update plainLib (envAt 63900000000000000000) (KeyMsg False ''s'')
                              (sessionOf modeViewTasks [taskWith InProgress 0 0] 0 0 20)))) ! 0)
   \<noteq> TimeSpent (taskWith InProgress 0 0)
       + Since 63900000000000000000 (LastStartedAt (taskWith InProgress 0 0))"
proof -
  let ?m = "sessionOf modeViewTasks [taskWith InProgress 0 0] 0 0 20"
  have "Update plainLib (envAt 63900000000000000000) (KeyMsg False ''s'') ?m =
     Some (finish plainLib (envAt 63900000000000000000) (KeyMsg False ''s'')
            ((clearErr False ''s'' ?m)\<lparr>tasks :=
               (tasks ?m)[nat (cursor ?m) :=
                  pauseCurrent (clock (envAt 63900000000000000000) (nat (cursor ?m)))
                    (tasks ?m ! nat (cursor ?m))]\<rparr>) [])"
    by (rule Update_toggle_pause) simp_all
  then show ?thesis
    by (simp add: pauseCurrent_eq IsZero_def Since_def Sub_def maxDuration_def minDuration_def)
qed

text \<open>
  C2, amended. The toggle key on a running task at the cursor sets its status to Paused
  and adds \<^verbatim>\<open>time.Since(last_started_at)\<close> to its time spent when the start time is set,
  and nothing when it is zero; that duration is the difference between the clock and
  the start time whenever the difference fits a duration. A task started at \<open>t0\<close> and
  toggled again five seconds later is Paused with five seconds more.
\<close>

theorem toggle_running_task:
  assumes "mode m = modeViewTasks" and "viewAction (keyMap m) k = ActToggle"
    and "0 \<le> cursor m" and "cursor m < int (length (tasks m))"
  shows "(Status (tasks m ! nat (cursor m)) = InProgress \<longrightarrow>
            (\<exists>r. Update lib env (KeyMsg b k) m = Some r
               \<and> tasks (resModel r) =
                   (tasks m)[nat (cursor m) :=
                      (tasks m ! nat (cursor m))
                        \<lparr>Status := Paused,
                         TimeSpent :=
                           (if IsZero (LastStartedAt (tasks m ! nat (cursor m)))
                            then TimeSpent (tasks m ! nat (cursor m))
                            else TimeSpent (tasks m ! nat (cursor m))
                                 + Since (clock env (nat (cursor m)))
                                     (LastStartedAt (tasks m ! nat (cursor m))))\<rparr>]))
         \<and> (minDuration \<le> now - t \<and> now - t \<le> maxDuration \<longrightarrow>
              Since now t = word_of_int (now - t))
         \<and> ((Status (tasks m ! nat (cursor m)) = Pending
               \<or> Status (tasks m ! nat (cursor m)) = Paused)
             \<and> clock env (nat (cursor m)) \<noteq> 0
             \<and> clock env' (nat (cursor m)) = clock env (nat (cursor m)) + 5000000000 \<longrightarrow>
              (\<exists>r1 r2. Update lib env (KeyMsg b k) m = Some r1
                 \<and> Update lib env' (KeyMsg b k) (resModel r1) = Some r2
                 \<and> Status (tasks (resModel r2) ! nat (cursor m)) = Paused
                 \<and> TimeSpent (tasks (resModel r2) ! nat (cursor m)) =
                     TimeSpent (tasks m ! nat (cursor m)) + 5000000000))"
proof (intro conjI impI)
  assume "Status (tasks m ! nat (cursor m)) = InProgress"
  with assms show "\<exists>r. Update lib env (KeyMsg b k) m = Some r
               \<and> tasks (resModel r) =
                   (tasks m)[nat (cursor m) :=
                      (tasks m ! nat (cursor m))
                        \<lparr>Status := Paused,
                         TimeSpent :=
                           (if IsZero (LastStartedAt (tasks m ! nat (cursor m)))
                            then TimeSpent (tasks m ! nat (cursor m))
                            else TimeSpent (tasks m ! nat (cursor m))
                                 + Since (clock env (nat (cursor m)))
                                     (LastStartedAt (tasks m ! nat (cursor m))))\<rparr>]"
    by (simp add: Update_toggle_pause pauseCurrent_eq)
next
  assume "minDuration \<le> now - t \<and> now - t \<le> maxDuration"
  then show "Since now t = word_of_int (now - t)" by (simp add: Since_in_range)
next
  let ?c = "nat (cursor m)"
  assume a: "(Status (tasks m ! ?c) = Pending \<or> Status (tasks m ! ?c) = Paused)
             \<and> clock env ?c \<noteq> 0 \<and> clock env' ?c = clock env ?c + 5000000000"
  have m: "m\<lparr>cursor := cursor m\<rparr> = m" by simp
  from Update_toggle_start [OF assms(1,2,3,4), of lib env b] a m obtain r1 where
    r1: "Update lib env (KeyMsg b k) m = Some r1"
      "length (tasks (resModel r1)) = length (tasks m)"
      "\<forall>j < length (tasks m).
          tasks (resModel r1) ! j =
            (if j = ?c
             then (tasks m ! j)\<lparr>Status := InProgress, LastStartedAt := clock env j\<rparr>
             else if Status (tasks m ! j) = InProgress
             then pauseCurrent (clock env j) (tasks m ! j)
             else tasks m ! j)"
    by auto
  have c: "?c < length (tasks m)" using assms(3,4) by simp
  with r1(3) have t1: "tasks (resModel r1) ! ?c =
      (tasks m ! ?c)\<lparr>Status := InProgress, LastStartedAt := clock env ?c\<rparr>"
    by simp
  from Update_toggle_step [OF assms(1,2,3), of lib env b] r1(1)
  have f1: "mode (resModel r1) = modeViewTasks" "keyMap (resModel r1) = keyMap m"
    by auto
  have "\<exists>m'. toggleKey env (clearErr b k m) = Some (Fall m' []) \<and> cursor m' = cursor m"
    using assms(3,4) a by (auto simp: toggleKey_start)
  then obtain m' where m': "toggleKey env (clearErr b k m) = Some (Fall m' [])"
      "cursor m' = cursor m" "length (tasks m') = length (tasks m)"
    using toggleKey_invariant [of "clearErr b k m" env] assms(3) by auto
  have "Update lib env (KeyMsg b k) m = Some (finish lib env (KeyMsg b k) m' [])"
    by (simp add: Update_KeyMsg handleKey_view [OF assms(1,2)] m'(1))
  with r1(1) have "cursor (resModel r1) = cursor (clampCursor m')" by auto
  also have "clampCursor m' = m'"
    by (rule clampCursor_id) (use m' assms(3,4) in simp_all)
  finally have c1: "cursor (resModel r1) = cursor m" using m'(2) by simp
  have u2: "Update lib env' (KeyMsg b k) (resModel r1) =
     Some (finish lib env' (KeyMsg b k)
            ((clearErr b k (resModel r1))\<lparr>tasks :=
               (tasks (resModel r1))[nat (cursor (resModel r1)) :=
                  pauseCurrent (clock env' (nat (cursor (resModel r1))))
                    (tasks (resModel r1) ! nat (cursor (resModel r1)))]\<rparr>) [])"
    by (rule Update_toggle_pause) (use f1 assms c1 r1(2) t1 in simp_all)
  show "\<exists>r1 r2. Update lib env (KeyMsg b k) m = Some r1
                 \<and> Update lib env' (KeyMsg b k) (resModel r1) = Some r2
                 \<and> Status (tasks (resModel r2) ! ?c) = Paused
                 \<and> TimeSpent (tasks (resModel r2) ! ?c) = TimeSpent (tasks m ! ?c) + 5000000000"
    using r1(1,2) u2 c c1 t1 a
    by (simp add: pauseCurrent_eq IsZero_def Since_five_seconds)
qed

theorem toggle_running_task_witness:
  "(\<exists>r. Update plainLib (envAt 6000) (KeyMsg False ''s'')
          (sessionOf modeViewTasks [taskWith InProgress 10 1000] 0 0 20) = Some r
      \<and> map Status (tasks (resModel r)) = [Paused]
      \<and> map TimeSpent (tasks (resModel r)) = [5010])
   \<and> (\<exists>r1 r2. Update plainLib (envAt 1000) (KeyMsg False ''s'')
                 (sessionOf modeViewTasks [taskWith Pending 0 0] 0 0 20) = Some r1
         \<and> Update plainLib (envAt 5000001000) (KeyMsg False ''s'') (resModel r1) = Some r2
         \<and> Status (tasks (resModel r2) ! 0) = Paused
         \<and> TimeSpent (tasks (resModel r2) ! 0) = 5000000000)"
proof
  let ?m = "sessionOf modeViewTasks [taskWith InProgress 10 1000] 0 0 20"
  have "mode ?m = modeViewTasks" "viewAction (keyMap ?m) ''s'' = ActToggle"
    "0 \<le> cursor ?m" "cursor ?m < int (length (tasks ?m))"
    by simp_all
  from toggle_running_task [OF this, where lib = plainLib and env = "envAt 6000" and b = False]
  show "\<exists>r. Update plainLib (envAt 6000) (KeyMsg False ''s'') ?m = Some r
      \<and> map Status (tasks (resModel r)) = [Paused]
      \<and> map TimeSpent (tasks (resModel r)) = [5010]"
    by (auto simp: IsZero_def Since_def Sub_def maxDuration_def minDuration_def)
next
  let ?m = "sessionOf modeViewTasks [taskWith Pending 0 0] 0 0 20"
  have "mode ?m = modeViewTasks" "viewAction (keyMap ?m) ''s'' = ActToggle"
    "0 \<le> cursor ?m" "cursor ?m < int (length (tasks ?m))"
    by simp_all
  from toggle_running_task [OF this, where lib = plainLib and env = "envAt 1000"
      and env' = "envAt 5000001000" and b = False]
  show "\<exists>r1 r2. Update plainLib (envAt 1000) (KeyMsg False ''s'') ?m = Some r1
         \<and> Update plainLib (envAt 5000001000) (KeyMsg False ''s'') (resModel r1) = Some r2
         \<and> Status (tasks (resModel r2) ! 0) = Paused
         \<and> TimeSpent (tasks (resModel r2) ! 0) = 5000000000"
    by simp
qed

subsection \<open>Quitting\<close>

lemma Update_quit:
  assumes "mode m = modeViewTasks" and "viewAction (keyMap m) k = ActQuit"
  shows "\<exists>r. Update lib env (KeyMsg b k) m = Some r \<and> resCmd r = CmdQuit
           \<and> quitting (resModel r)
           \<and> tasks (resModel r) = pauseAll (clock env) 0 (tasks m)
           \<and> (marshalErr env = None \<longrightarrow> resSaved r = Some (tasks (resModel r)))
           \<and> (\<forall>saved. resSaved r = Some saved \<longrightarrow> saved = tasks (resModel r))"
  by (simp add: Update_KeyMsg handleKey_view [OF assms] quitKey_def saveTasksToFile_def
        Let_def split: option.splits)

text \<open>
  C3. The quit key pauses every running task, with the accrual of the pausing
  transition, before it saves: the task list handed to the file system is the list of
  the returned model, and no task in it is running.
\<close>

theorem quit_pauses_before_saving:
  assumes "mode m = modeViewTasks" and "viewAction (keyMap m) k = ActQuit"
  shows "\<exists>r. Update lib env (KeyMsg b k) m = Some r \<and> resCmd r = CmdQuit
           \<and> length (tasks (resModel r)) = length (tasks m)
           \<and> (\<forall>j < length (tasks m).
                 tasks (resModel r) ! j =
                   (if Status (tasks m ! j) = InProgress
                    then pauseCurrent (clock env j) (tasks m ! j)
                    else tasks m ! j))
           \<and> (\<forall>t \<in> set (tasks (resModel r)). Status t \<noteq> InProgress)
           \<and> (marshalErr env = None \<longrightarrow> resSaved r = Some (tasks (resModel r)))
           \<and> (\<forall>saved. resSaved r = Some saved \<longrightarrow>
                 saved = tasks (resModel r) \<and> (\<forall>t \<in> set saved. Status t \<noteq> InProgress))"
proof -
  from Update_quit [OF assms, of lib env b] obtain r where
    r: "Update lib env (KeyMsg b k) m = Some r" "resCmd r = CmdQuit"
      "tasks (resModel r) = pauseAll (clock env) 0 (tasks m)"
      "marshalErr env = None \<longrightarrow> resSaved r = Some (tasks (resModel r))"
      "\<forall>saved. resSaved r = Some saved \<longrightarrow> saved = tasks (resModel r)"
    by (elim exE conjE) (rule that; assumption)
  have none: "\<forall>t \<in> set (tasks (resModel r)). Status t \<noteq> InProgress"
    using inProgressCount_pauseAll [of "clock env" 0 "tasks m"]
    by (simp only: r(3) inProgressCount_zero_iff)
  have nth: "\<forall>j < length (tasks m).
                 tasks (resModel r) ! j =
                   (if Status (tasks m ! j) = InProgress
                    then pauseCurrent (clock env j) (tasks m ! j)
                    else tasks m ! j)"
    by (simp add: r(3) nth_pauseAll pauseTask_eq_pauseCurrent)
  have len: "length (tasks (resModel r)) = length (tasks m)"
    by (simp add: r(3))
  show ?thesis
  proof (intro exI [of _ r] conjI allI impI)
    fix saved assume "resSaved r = Some saved"
    with r(5) have "saved = tasks (resModel r)" by simp
    with none show "\<forall>t \<in> set saved. Status t \<noteq> InProgress" by simp
  qed (use r(1,2,4,5) none nth len in simp_all)
qed

theorem quit_pauses_before_saving_witness:
  "\<exists>r. Update plainLib (envAt 6000) (KeyMsg False ''q'')
          (sessionOf modeViewTasks [taskWith InProgress 10 1000, taskWith Pending 0 0] 1 0 20)
        = Some r
     \<and> resSaved r = Some (tasks (resModel r))
     \<and> length (tasks (resModel r)) = 2
     \<and> Status (tasks (resModel r) ! 0) = Paused
     \<and> TimeSpent (tasks (resModel r) ! 0) = 5010
     \<and> tasks (resModel r) ! 1 = taskWith Pending 0 0"
proof -
  let ?m = "sessionOf modeViewTasks [taskWith InProgress 10 1000, taskWith Pending 0 0] 1 0 20"
  have h: "mode ?m = modeViewTasks" "viewAction (keyMap ?m) ''q'' = ActQuit"
    by simp_all
  from quit_pauses_before_saving [OF h, of plainLib "envAt 6000" False] obtain r where
    r: "Update plainLib (envAt 6000) (KeyMsg False ''q'') ?m = Some r"
      "length (tasks (resModel r)) = length (tasks ?m)"
      "\<forall>j < length (tasks ?m).
          tasks (resModel r) ! j =
            (if Status (tasks ?m ! j) = InProgress
             then pauseCurrent (clock (envAt 6000) j) (tasks ?m ! j)
             else tasks ?m ! j)"
      "marshalErr (envAt 6000) = None \<longrightarrow> resSaved r = Some (tasks (resModel r))"
    by (elim exE conjE) (rule that; assumption)
  from r(3) have "tasks (resModel r) ! 0 = pauseCurrent 6000 (taskWith InProgress 10 1000)"
    "tasks (resModel r) ! 1 = taskWith Pending 0 0"
    by simp_all
  with r(1,2,4) show ?thesis
    by (simp add: pauseCurrent_eq IsZero_def Since_def Sub_def maxDuration_def minDuration_def)
qed

subsection \<open>Scrolling to the cursor\<close>




subsection \<open>Truncating a description\<close>










subsection \<open>Starting without a tasks file\<close>

text \<open>
  C6 as stated fails: after a start without a tasks file the \<^verbatim>\<open>err\<close> field of the
  session holds the file-absent error.
\<close>

theorem absent_file_counterexample:
  "err (fst (initialModel (Inl ErrNotExist) (\<lambda>d :: unit. Inr []))) \<noteq> None"
  by (simp add: initialModel_def loadTasksFromFile_def)

lemma Update_empty_store: "tasks m = [] \<Longrightarrow> Update lib env msg m \<noteq> None"
  by (cases msg)
    (auto simp: Update_def handleKey_def deleteKey_def toggleKey_def completeKey_def Let_def
       split_def
       split: appMode.splits ViewAction.splits AddAction.splits option.splits Flow.splits)

text \<open>
  C6, amended. When the tasks file does not exist, the session starts with an empty
  store on which no message panics, nothing is written to the error stream and
  \<^verbatim>\<open>View\<close> shows no error; the file-absent error itself is recorded in the \<^verbatim>\<open>err\<close>
  field of the session, where no key press clears it.
\<close>

theorem absent_file_start:
  "tasks (fst (initialModel (Inl ErrNotExist) unmarshal)) = []
   \<and> cursor (fst (initialModel (Inl ErrNotExist) unmarshal)) = 0
   \<and> err (fst (initialModel (Inl ErrNotExist) unmarshal)) = Some ErrNotExist
   \<and> snd (initialModel (Inl ErrNotExist) unmarshal) = None
   \<and> viewError ((fst (initialModel (Inl ErrNotExist) unmarshal))\<lparr>ready := rdy\<rparr>) = None
   \<and> err (clearErr b k (fst (initialModel (Inl ErrNotExist) unmarshal))) = Some ErrNotExist
   \<and> Update lib env msg (fst (initialModel (Inl ErrNotExist) unmarshal)) \<noteq> None"
proof -
  have t: "tasks (fst (initialModel (Inl ErrNotExist) unmarshal)) = []"
    by (simp add: initialModel_def loadTasksFromFile_def)
  have "Update lib env msg (fst (initialModel (Inl ErrNotExist) unmarshal)) \<noteq> None"
    using t by (rule Update_empty_store)
  then show ?thesis
    by (simp add: initialModel_def loadTasksFromFile_def viewError_def clearErr_def)
qed

theorem absent_file_start_witness:
  "tasks (fst (initialModel (Inl ErrNotExist) (\<lambda>d :: unit. Inr []))) = []
   \<and> err (fst (initialModel (Inl ErrNotExist) (\<lambda>d :: unit. Inr []))) = Some ErrNotExist
   \<and> snd (initialModel (Inl ErrNotExist) (\<lambda>d :: unit. Inr [])) = None
   \<and> viewError ((fst (initialModel (Inl ErrNotExist) (\<lambda>d :: unit. Inr [])))
                  \<lparr>ready := True\<rparr>) = None"
  using absent_file_start [of "\<lambda>d :: unit. Inr []" True] by simp

subsection \<open>A zero start time\<close>

lemma nth_taskRows:
  "j < length ts \<Longrightarrow> taskRows lib clk m i ts ! j = taskRow lib clk m (i + j) (ts ! j)"
proof (induction ts arbitrary: i j)
  case Nil
  then show ?case by simp
next
  case (Cons t ts)
  show ?case
  proof (cases j)
    case 0
    then show ?thesis by simp
  next
    case (Suc n)
    with Cons.prems have "n < length ts" by simp
    from Cons.IH [OF this, of "Suc i"] Suc show ?thesis by simp
  qed
qed

lemma TimeSpent_pauseCurrent_zero:
  "IsZero (LastStartedAt t) \<Longrightarrow> TimeSpent (pauseCurrent now t) = TimeSpent t"
  by (simp add: pauseCurrent_eq)

lemma TimeSpent_completeTask_zero:
  "IsZero (LastStartedAt t) \<Longrightarrow> TimeSpent (completeTask now t) = TimeSpent t"
  by (simp add: completeTask_def Let_def)

lemma Update_toggle_nth:
  assumes "mode m = modeViewTasks" and "viewAction (keyMap m) k = ActToggle"
    and "0 \<le> cursor m" and "j < length (tasks m)"
  shows "\<exists>r. Update lib env (KeyMsg b k) m = Some r
           \<and> (tasks (resModel r) ! j = tasks m ! j
                \<or> tasks (resModel r) ! j = pauseCurrent (clock env j) (tasks m ! j)
                \<or> (Status (tasks m ! j) \<noteq> InProgress
                    \<and> tasks (resModel r) ! j =
                        (tasks m ! j)\<lparr>Status := InProgress, LastStartedAt := clock env j\<rparr>))"
proof (cases "cursor m < int (length (tasks m))")
  case False
  then have "toggleKey env (clearErr b k m) = Some (Fall (clearErr b k m) [])"
    by (simp add: toggleKey_outside)
  then show ?thesis
    by (simp add: Update_KeyMsg handleKey_view [OF assms(1,2)])
next
  case inside: True
  let ?c = "nat (cursor m)"
  show ?thesis
  proof (cases "Status (tasks m ! ?c)")
    case Completed
    have "toggleKey env (clearErr b k m) = Some (Fall (clearErr b k m) [])"
      by (rule toggleKey_completed) (use assms inside Completed in simp_all)
    then show ?thesis
      by (simp add: Update_KeyMsg handleKey_view [OF assms(1,2)])
  next
    case InProgress
    from Update_toggle_pause [OF assms(1,2,3) inside InProgress, of lib env b] assms(4)
    show ?thesis by (cases "j = ?c") simp_all
  next
    case Pending
    have m: "m\<lparr>cursor := cursor m\<rparr> = m" by simp
    from Update_toggle_start [OF assms(1,2,3) inside, of lib env b] Pending m assms(4)
    show ?thesis by auto
  next
    case Paused
    have m: "m\<lparr>cursor := cursor m\<rparr> = m" by simp
    from Update_toggle_start [OF assms(1,2,3) inside, of lib env b] Paused m assms(4)
    show ?thesis by auto
  qed
qed

lemma Update_complete_nth:
  assumes "mode m = modeViewTasks" and "viewAction (keyMap m) k = ActComplete"
    and "0 \<le> cursor m" and "j < length (tasks m)"
  shows "\<exists>r. Update lib env (KeyMsg b k) m = Some r
           \<and> (tasks (resModel r) ! j = tasks m ! j
                \<or> tasks (resModel r) ! j = completeTask (clock env j) (tasks m ! j))"
proof (cases "cursor m < int (length (tasks m))")
  case False
  then have "completeKey env (clearErr b k m) = Some (Fall (clearErr b k m) [])"
    by (simp add: completeKey_outside)
  then show ?thesis
    by (simp add: Update_KeyMsg handleKey_view [OF assms(1,2)])
next
  case True
  let ?m = "clearErr b k m"
  have "completeKey env ?m =
     Some (Fall (?m\<lparr>tasks :=
                    (tasks ?m)[nat (cursor ?m) :=
                      completeTask (clock env (nat (cursor ?m))) (tasks ?m ! nat (cursor ?m))]\<rparr>) [])"
    by (rule completeKey_inside) (use assms True in simp_all)
  with assms(4) show ?thesis
    by (cases "j = nat (cursor m)")
      (simp_all add: Update_KeyMsg handleKey_view [OF assms(1,2)])
qed

text \<open>
  C7. A running task whose start time is zero gets no time added by any key that
  accrues: the toggle key (on it, or on another task that is started), the complete key
  and the quit key all return without a panic and leave its time spent unchanged. The
  renderer shows its time spent as the elapsed time.
\<close>

theorem zero_start_contributes_nothing:
  assumes "mode m = modeViewTasks" and "j < length (tasks m)"
    and "Status (tasks m ! j) = InProgress" and "IsZero (LastStartedAt (tasks m ! j))"
  shows "(viewAction (keyMap m) k = ActToggle \<and> 0 \<le> cursor m \<longrightarrow>
            (\<exists>r. Update lib env (KeyMsg b k) m = Some r
               \<and> TimeSpent (tasks (resModel r) ! j) = TimeSpent (tasks m ! j)))
         \<and> (viewAction (keyMap m) k = ActComplete \<and> 0 \<le> cursor m \<longrightarrow>
            (\<exists>r. Update lib env (KeyMsg b k) m = Some r
               \<and> TimeSpent (tasks (resModel r) ! j) = TimeSpent (tasks m ! j)))
         \<and> (viewAction (keyMap m) k = ActQuit \<longrightarrow>
            (\<exists>r. Update lib env (KeyMsg b k) m = Some r
               \<and> TimeSpent (tasks (resModel r) ! j) = TimeSpent (tasks m ! j)
               \<and> Status (tasks (resModel r) ! j) = Paused))
         \<and> timeDisplay now (tasks m ! j) = TimeSpent (tasks m ! j)
         \<and> rowTime (taskRows lib clk m 0 (tasks m) ! j) = TimeSpent (tasks m ! j)"
proof (intro conjI impI)
  assume "viewAction (keyMap m) k = ActToggle \<and> 0 \<le> cursor m"
  then have a: "viewAction (keyMap m) k = ActToggle" "0 \<le> cursor m" by simp_all
  from Update_toggle_nth [OF assms(1) a assms(2), of lib env b] obtain r where
    r: "Update lib env (KeyMsg b k) m = Some r"
      "tasks (resModel r) ! j = tasks m ! j
        \<or> tasks (resModel r) ! j = pauseCurrent (clock env j) (tasks m ! j)
        \<or> (Status (tasks m ! j) \<noteq> InProgress
            \<and> tasks (resModel r) ! j =
                (tasks m ! j)\<lparr>Status := InProgress, LastStartedAt := clock env j\<rparr>)"
    by (elim exE conjE) (rule that; assumption)
  from r(2) assms(3,4) have "TimeSpent (tasks (resModel r) ! j) = TimeSpent (tasks m ! j)"
    by (elim disjE) (simp_all add: TimeSpent_pauseCurrent_zero)
  with r(1)
  show "\<exists>r. Update lib env (KeyMsg b k) m = Some r
               \<and> TimeSpent (tasks (resModel r) ! j) = TimeSpent (tasks m ! j)"
    by (intro exI [of _ r] conjI)
next
  assume "viewAction (keyMap m) k = ActComplete \<and> 0 \<le> cursor m"
  then have a: "viewAction (keyMap m) k = ActComplete" "0 \<le> cursor m" by simp_all
  from Update_complete_nth [OF assms(1) a assms(2), of lib env b] obtain r where
    r: "Update lib env (KeyMsg b k) m = Some r"
      "tasks (resModel r) ! j = tasks m ! j
        \<or> tasks (resModel r) ! j = completeTask (clock env j) (tasks m ! j)"
    by (elim exE conjE) (rule that; assumption)
  from r(2) assms(4) have "TimeSpent (tasks (resModel r) ! j) = TimeSpent (tasks m ! j)"
    by (elim disjE) (simp_all add: TimeSpent_completeTask_zero)
  with r(1)
  show "\<exists>r. Update lib env (KeyMsg b k) m = Some r
               \<and> TimeSpent (tasks (resModel r) ! j) = TimeSpent (tasks m ! j)"
    by (intro exI [of _ r] conjI)
next
  assume a: "viewAction (keyMap m) k = ActQuit"
  from Update_quit [OF assms(1) a, of lib env b] obtain r where
    r: "Update lib env (KeyMsg b k) m = Some r"
      "tasks (resModel r) = pauseAll (clock env) 0 (tasks m)"
    by (elim exE conjE) (rule that; assumption)
  from assms(2,3) have "tasks (resModel r) ! j = pauseCurrent (clock env j) (tasks m ! j)"
    by (simp add: r(2) nth_pauseAll pauseTask_eq_pauseCurrent)
  with assms(4) have "TimeSpent (tasks (resModel r) ! j) = TimeSpent (tasks m ! j)"
    "Status (tasks (resModel r) ! j) = Paused"
    by (simp_all add: TimeSpent_pauseCurrent_zero)
  with r(1)
  show "\<exists>r. Update lib env (KeyMsg b k) m = Some r
               \<and> TimeSpent (tasks (resModel r) ! j) = TimeSpent (tasks m ! j)
               \<and> Status (tasks (resModel r) ! j) = Paused"
    by (intro exI [of _ r] conjI)
next
  show "timeDisplay now (tasks m ! j) = TimeSpent (tasks m ! j)"
    using assms(4) by (simp add: timeDisplay_def)
next
  show "rowTime (taskRows lib clk m 0 (tasks m) ! j) = TimeSpent (tasks m ! j)"
    using assms(2,4) by (simp add: nth_taskRows taskRow_def timeDisplay_def)
qed

theorem zero_start_contributes_nothing_witness:
  "(\<exists>r. Update plainLib (envAt 6000) (KeyMsg False ''s'')
           (sessionOf modeViewTasks [taskWith InProgress 10 0] 0 0 20) = Some r
      \<and> TimeSpent (tasks (resModel r) ! 0) = 10)
   \<and> (\<exists>r. Update plainLib (envAt 6000) (KeyMsg False ''c'')
           (sessionOf modeViewTasks [taskWith InProgress 10 0] 0 0 20) = Some r
      \<and> TimeSpent (tasks (resModel r) ! 0) = 10)
   \<and> (\<exists>r. Update plainLib (envAt 6000) (KeyMsg False ''q'')
           (sessionOf modeViewTasks [taskWith InProgress 10 0] 0 0 20) = Some r
      \<and> TimeSpent (tasks (resModel r) ! 0) = 10
      \<and> Status (tasks (resModel r) ! 0) = Paused)
   \<and> timeDisplay 6000 (taskWith InProgress 10 0) = 10"
proof -
  let ?m = "sessionOf modeViewTasks [taskWith InProgress 10 0] 0 0 20"
  have h: "mode ?m = modeViewTasks" "0 < length (tasks ?m)"
    "Status (tasks ?m ! 0) = InProgress" "IsZero (LastStartedAt (tasks ?m ! 0))"
    by (simp_all add: IsZero_def)
  from zero_start_contributes_nothing [OF h, where k = "''s''" and lib = plainLib
      and env = "envAt 6000" and b = False]
  have 1: "\<exists>r. Update plainLib (envAt 6000) (KeyMsg False ''s'') ?m = Some r
      \<and> TimeSpent (tasks (resModel r) ! 0) = 10"
    by simp
  from zero_start_contributes_nothing [OF h, where k = "''c''" and lib = plainLib
      and env = "envAt 6000" and b = False]
  have 2: "\<exists>r. Update plainLib (envAt 6000) (KeyMsg False ''c'') ?m = Some r
      \<and> TimeSpent (tasks (resModel r) ! 0) = 10"
    by simp
  from zero_start_contributes_nothing [OF h, where k = "''q'' " and lib = plainLib
      and env = "envAt 6000" and b = False and now = 6000]
  have 3: "(\<exists>r. Update plainLib (envAt 6000) (KeyMsg False ''q'') ?m = Some r
      \<and> TimeSpent (tasks (resModel r) ! 0) = 10
      \<and> Status (tasks (resModel r) ! 0) = Paused)
      \<and> timeDisplay 6000 (taskWith InProgress 10 0) = 10"
    by simp
  from 1 2 3 show ?thesis by blast
qed

subsection \<open>Adding a task\<close>

lemma TrimSpace_Nil_iff: "TrimSpace s = [] \<longleftrightarrow> (\<forall>r \<in> set s. isSpace r)"
proof
  assume "TrimSpace s = []"
  then have all: "\<forall>r \<in> set (dropWhile isSpace s). isSpace r"
    by (simp add: TrimSpace_def dropWhile_eq_Nil_conv)
  have "dropWhile isSpace s = []"
  proof (rule ccontr)
    assume ne: "dropWhile isSpace s \<noteq> []"
    then have "\<not> isSpace (hd (dropWhile isSpace s))" by (rule hd_dropWhile)
    moreover have "hd (dropWhile isSpace s) \<in> set (dropWhile isSpace s)"
      using ne by simp
    ultimately show False using all by blast
  qed
  then show "\<forall>r \<in> set s. isSpace r" by (simp add: dropWhile_eq_Nil_conv)
next
  assume "\<forall>r \<in> set s. isSpace r"
  then have "dropWhile isSpace s = []" by (simp add: dropWhile_eq_Nil_conv)
  then show "TrimSpace s = []" by (simp only: TrimSpace_def rev.simps dropWhile.simps)
qed

lemma Update_enter:
  assumes "mode m = modeAddTask" and "addAction (keyMap m) k = ActEnter"
  shows "Update lib env (KeyMsg b k) m =
     (case enterKey env (clearErr b k m) of
        Return r \<Rightarrow> Some r
      | Fall m' cmds \<Rightarrow> Some (finish lib env (KeyMsg b k) m' cmds))"
  using assms by (simp add: Update_KeyMsg handleKey_def)

text \<open>
  C8. In adding mode the enter key, on an input that is empty or all white space,
  creates no task, leaves the store as it is and sets no error; on any other input it
  puts a new Pending task with that description at index 0 and the cursor at 0.
\<close>

theorem enter_adds_task:
  assumes "mode m = modeAddTask" and "addAction (keyMap m) k = ActEnter"
  shows "((\<forall>r \<in> set (inputValue (input m)). isSpace r) \<longrightarrow>
            (\<exists>res. Update lib env (KeyMsg b k) m = Some res
               \<and> tasks (resModel res) = tasks m
               \<and> (err (resModel res) = None \<or> err (resModel res) = err m)))
         \<and> (\<not> (\<forall>r \<in> set (inputValue (input m)). isSpace r) \<longrightarrow>
            (\<exists>res. Update lib env (KeyMsg b k) m = Some res
               \<and> tasks (resModel res) =
                   \<lparr>ID = newID env, Description = inputValue (input m), Status = Pending,
                    TimeSpent = 0, LastStartedAt = 0, CreatedAt = clock env 0\<rparr> # tasks m
               \<and> cursor (resModel res) = 0
               \<and> (err (resModel res) = None \<or> err (resModel res) = err m)))"
proof (intro conjI impI)
  assume "\<forall>r \<in> set (inputValue (input m)). isSpace r"
  then have "TrimSpace (inputValue (input (clearErr b k m))) = []"
    by (simp add: TrimSpace_Nil_iff)
  then have "Update lib env (KeyMsg b k) m =
               Some (finish lib env (KeyMsg b k) (clearErr b k m) [])"
    by (simp add: Update_enter [OF assms] enterKey_def)
  with err_clearErr [of b k m]
  show "\<exists>res. Update lib env (KeyMsg b k) m = Some res
               \<and> tasks (resModel res) = tasks m
               \<and> (err (resModel res) = None \<or> err (resModel res) = err m)"
    by auto
next
  assume "\<not> (\<forall>r \<in> set (inputValue (input m)). isSpace r)"
  then have "TrimSpace (inputValue (input (clearErr b k m))) \<noteq> []"
    by (simp add: TrimSpace_Nil_iff)
  then have "Update lib env (KeyMsg b k) m =
               Some (finish lib env (KeyMsg b k)
                 ((clearErr b k m)
                    \<lparr>tasks := \<lparr>ID = newID env, Description = inputValue (input m),
                               Status = Pending, TimeSpent = 0, LastStartedAt = 0,
                               CreatedAt = clock env 0\<rparr> # tasks m,
                     input := (input m)\<lparr>inputValue := []\<rparr>,
                     cursor := 0\<rparr>) [])"
    by (simp add: Update_enter [OF assms] enterKey_def Let_def)
  with err_clearErr [of b k m]
  show "\<exists>res. Update lib env (KeyMsg b k) m = Some res
               \<and> tasks (resModel res) =
                   \<lparr>ID = newID env, Description = inputValue (input m), Status = Pending,
                    TimeSpent = 0, LastStartedAt = 0, CreatedAt = clock env 0\<rparr> # tasks m
               \<and> cursor (resModel res) = 0
               \<and> (err (resModel res) = None \<or> err (resModel res) = err m)"
    by (auto simp: clampCursor_def Let_def)
qed

theorem enter_adds_task_witness:
  "(\<exists>res. Update plainLib (envAt 6000) (KeyMsg False ''enter'')
             (sessionOf modeAddTask [] 0 0 20) = Some res
      \<and> map Status (tasks (resModel res)) = [Pending]
      \<and> map Description (tasks (resModel res)) = [str ''Buy milk'']
      \<and> cursor (resModel res) = 0
      \<and> err (resModel res) = None)
   \<and> (\<exists>res. Update plainLib (envAt 6000) (KeyMsg False ''enter'')
             ((sessionOf modeAddTask [] 0 0 20)
                \<lparr>input := \<lparr>inputValue = str ''  '', inputFocused = True\<rparr>\<rparr>) = Some res
      \<and> tasks (resModel res) = []
      \<and> err (resModel res) = None)"
proof
  let ?m = "sessionOf modeAddTask [] 0 0 20"
  have h: "mode ?m = modeAddTask" "addAction (keyMap ?m) ''enter'' = ActEnter"
    by simp_all
  have "\<not> (\<forall>r \<in> set (inputValue (input ?m)). isSpace r)"
    by (simp add: str_def isSpace_def)
  with enter_adds_task [OF h, of plainLib "envAt 6000" False]
  show "\<exists>res. Update plainLib (envAt 6000) (KeyMsg False ''enter'') ?m = Some res
      \<and> map Status (tasks (resModel res)) = [Pending]
      \<and> map Description (tasks (resModel res)) = [str ''Buy milk'']
      \<and> cursor (resModel res) = 0
      \<and> err (resModel res) = None"
    by auto
next
  let ?m = "(sessionOf modeAddTask [] 0 0 20)
              \<lparr>input := \<lparr>inputValue = str ''  '', inputFocused = True\<rparr>\<rparr>"
  have h: "mode ?m = modeAddTask" "addAction (keyMap ?m) ''enter'' = ActEnter"
    by simp_all
  have "\<forall>r \<in> set (inputValue (input ?m)). isSpace r"
    by (simp add: str_def isSpace_def)
  with enter_adds_task [OF h, of plainLib "envAt 6000" False]
  show "\<exists>res. Update plainLib (envAt 6000) (KeyMsg False ''enter'') ?m = Some res
      \<and> tasks (resModel res) = []
      \<and> err (resModel res) = None"
    by auto
qed

subsection \<open>Toggle and complete outside their domain\<close>

lemma completeTask_Completed: "Status t = Completed \<Longrightarrow> completeTask now t = t"
  by (simp add: completeTask_def Let_def)

text \<open>
  C10. In viewing mode the toggle and complete keys leave the task store as it is, and
  do not panic, when the store is empty and when the task at the cursor is Completed.
\<close>

theorem toggle_complete_outside_domain:
  assumes "mode m = modeViewTasks"
    and "viewAction (keyMap m) k = ActToggle \<or> viewAction (keyMap m) k = ActComplete"
  shows "(tasks m = [] \<longrightarrow>
            (\<exists>r. Update lib env (KeyMsg b k) m = Some r \<and> tasks (resModel r) = []))
         \<and> (0 \<le> cursor m \<and> cursor m < int (length (tasks m))
              \<and> Status (tasks m ! nat (cursor m)) = Completed \<longrightarrow>
              (\<exists>r. Update lib env (KeyMsg b k) m = Some r \<and> tasks (resModel r) = tasks m))"
proof (intro conjI impI)
  assume "tasks m = []"
  then have "toggleKey env (clearErr b k m) = Some (Fall (clearErr b k m) [])"
    "completeKey env (clearErr b k m) = Some (Fall (clearErr b k m) [])"
    by (simp_all add: toggleKey_def completeKey_def)
  with assms \<open>tasks m = []\<close>
  show "\<exists>r. Update lib env (KeyMsg b k) m = Some r \<and> tasks (resModel r) = []"
    by (auto simp: Update_KeyMsg handleKey_view [OF assms(1)])
next
  assume c: "0 \<le> cursor m \<and> cursor m < int (length (tasks m))
              \<and> Status (tasks m ! nat (cursor m)) = Completed"
  let ?m = "clearErr b k m"
  have "toggleKey env ?m = Some (Fall ?m [])"
    by (rule toggleKey_completed) (use c in simp_all)
  moreover have "completeKey env ?m =
     Some (Fall (?m\<lparr>tasks :=
                    (tasks ?m)[nat (cursor ?m) :=
                      completeTask (clock env (nat (cursor ?m))) (tasks ?m ! nat (cursor ?m))]\<rparr>) [])"
    by (rule completeKey_inside) (use c in simp_all)
  ultimately
  show "\<exists>r. Update lib env (KeyMsg b k) m = Some r \<and> tasks (resModel r) = tasks m"
    using assms c
    by (auto simp: Update_KeyMsg handleKey_view [OF assms(1)] completeTask_Completed)
qed

theorem toggle_complete_outside_domain_witness:
  "(\<exists>r. Update plainLib (envAt 6000) (KeyMsg False ''s'')
           (sessionOf modeViewTasks [] 0 0 20) = Some r \<and> tasks (resModel r) = [])
   \<and> (\<exists>r. Update plainLib (envAt 6000) (KeyMsg False ''c'')
             (sessionOf modeViewTasks [taskWith Completed 10 1000] 0 0 20) = Some r
         \<and> tasks (resModel r) = [taskWith Completed 10 1000])"
proof
  let ?m = "sessionOf modeViewTasks [] 0 0 20"
  have "mode ?m = modeViewTasks"
    "viewAction (keyMap ?m) ''s'' = ActToggle \<or> viewAction (keyMap ?m) ''s'' = ActComplete"
    by simp_all
  from toggle_complete_outside_domain [OF this, of plainLib "envAt 6000" False]
  show "\<exists>r. Update plainLib (envAt 6000) (KeyMsg False ''s'') ?m = Some r
          \<and> tasks (resModel r) = []"
    by simp
next
  let ?m = "sessionOf modeViewTasks [taskWith Completed 10 1000] 0 0 20"
  have "mode ?m = modeViewTasks"
    "viewAction (keyMap ?m) ''c'' = ActToggle \<or> viewAction (keyMap ?m) ''c'' = ActComplete"
    by simp_all
  from toggle_complete_outside_domain [OF this, of plainLib "envAt 6000" False]
  show "\<exists>r. Update plainLib (envAt 6000) (KeyMsg False ''c'') ?m = Some r
          \<and> tasks (resModel r) = [taskWith Completed 10 1000]"
    by simp
qed

subsection \<open>Sessions in progress hold no error to clear\<close>

lemma clearErr_quitting [simp]: "quitting (clearErr b k m) = quitting m"
  by (simp add: clearErr_def split: option.splits)

lemma finish_quitting [simp]: "quitting (resModel (finish lib env msg m cmds)) = quitting m"
  by (simp add: finish_def Let_def split_def clampCursor_def)

lemma ensureCursorVisible_keeps [simp]:
  "keyMap (ensureCursorVisible lib m) = keyMap m"
  "quitting (ensureCursorVisible lib m) = quitting m"
  "err (ensureCursorVisible lib m) = err m"
  "tasks (ensureCursorVisible lib m) = tasks m"
  "mode (ensureCursorVisible lib m) = mode m"
  by (simp_all add: ensureCursorVisible_def Let_def)

lemma quitKey_quits: "\<exists>r. quitKey env m = Return r \<and> quitting (resModel r) \<and> keyMap (resModel r) = keyMap m"
  by (simp add: quitKey_def Let_def split_def split: option.splits)

lemma deleteKey_keeps:
  "deleteKey m = Some fl \<Longrightarrow>
   (case fl of
      Return r \<Rightarrow> keyMap (resModel r) = keyMap m \<and> quitting (resModel r) = quitting m
                   \<and> err (resModel r) = err m
    | Fall m' cmds \<Rightarrow> keyMap m' = keyMap m \<and> quitting m' = quitting m \<and> err m' = err m)"
  by (auto simp: deleteKey_def Let_def split: if_splits)

lemma toggleKey_keeps:
  "toggleKey env m = Some fl \<Longrightarrow>
   (case fl of
      Return r \<Rightarrow> False
    | Fall m' cmds \<Rightarrow> keyMap m' = keyMap m \<and> quitting m' = quitting m \<and> err m' = err m)"
  by (auto simp: toggleKey_def Let_def split: if_splits TaskStatus.splits)

lemma completeKey_keeps:
  "completeKey env m = Some fl \<Longrightarrow>
   (case fl of
      Return r \<Rightarrow> False
    | Fall m' cmds \<Rightarrow> keyMap m' = keyMap m \<and> quitting m' = quitting m \<and> err m' = err m)"
  by (auto simp: completeKey_def Let_def split: if_splits)

text \<open>
  Whatever the key, the handling keeps the key map, never leaves the quitting state, and
  keeps the error unless it quits.
\<close>

lemma handleKey_keeps:
  assumes "handleKey lib env msg k m = Some fl"
  shows "case fl of
           Return r \<Rightarrow> keyMap (resModel r) = keyMap m
                        \<and> (quitting m \<longrightarrow> quitting (resModel r))
                        \<and> (err (resModel r) = err m \<or> quitting (resModel r))
         | Fall m' cmds \<Rightarrow> keyMap m' = keyMap m \<and> quitting m' = quitting m \<and> err m' = err m"
proof (cases "mode m")
  case modeAddTask
  with assms show ?thesis
    by (auto simp: handleKey_def enterKey_def escKey_def Let_def split_def
          split: AddAction.splits if_splits)
next
  case modeViewTasks
  show ?thesis
  proof (cases "viewAction (keyMap m) k")
    case ActQuit
    with modeViewTasks assms quitKey_quits [of env m] show ?thesis
      by (auto simp: handleKey_def)
  next
    case ActDelete
    with modeViewTasks assms deleteKey_keeps [of m fl] show ?thesis
      by (auto simp: handleKey_def split: Flow.splits)
  next
    case ActToggle
    with modeViewTasks assms toggleKey_keeps [of env m fl] show ?thesis
      by (auto simp: handleKey_def split: Flow.splits)
  next
    case ActComplete
    with modeViewTasks assms completeKey_keeps [of env m fl] show ?thesis
      by (auto simp: handleKey_def split: Flow.splits)
  next
    case ActToggleLineNumbers
    with modeViewTasks assms show ?thesis by (auto simp: handleKey_def Let_def)
  next
    case ActToggleCalendar
    with modeViewTasks assms show ?thesis by (auto simp: handleKey_def Let_def)
  next
    case ActAdd
    with modeViewTasks assms show ?thesis by (auto simp: handleKey_def addKey_def)
  next
    case ActUp
    with modeViewTasks assms show ?thesis by (auto simp: handleKey_def upKey_def)
  next
    case ActDown
    with modeViewTasks assms show ?thesis by (auto simp: handleKey_def downKey_def)
  next
    case ActNone
    with modeViewTasks assms show ?thesis by (auto simp: handleKey_def)
  qed
qed

lemma viewAction_quit_keys [simp]:
  "viewAction initialKeyMap ''ctrl+c'' = ActQuit"
  "viewAction initialKeyMap ''alt+ctrl+c'' = ActNone"
  "viewAction initialKeyMap ''pgdown'' = ActNone"
  by (simp_all add: viewAction_def initialKeyMap_def Matches_def NewBinding_def)

lemma Update_step_invariant:
  assumes inv: "quitting m \<or> (\<forall>e. err m = Some e \<longrightarrow> IsNotExist e)
                 \<or> (tasks m = [] \<and> mode m = modeViewTasks)"
    and km: "keyMap m = initialKeyMap"
    and wf: "wellFormedMsg msg"
    and up: "Update lib env msg m = Some r"
  shows "keyMap (resModel r) = initialKeyMap
         \<and> (quitting (resModel r) \<or> (\<forall>e. err (resModel r) = Some e \<longrightarrow> IsNotExist e)
              \<or> (tasks (resModel r) = [] \<and> mode (resModel r) = modeViewTasks))"
proof (cases msg)
  case TickMsg
  with up inv km show ?thesis by (auto simp: Update_def)
next
  case OtherMsg
  with up inv km show ?thesis by (auto simp: Update_def)
next
  case (KeyMsg ctrlC k)
  let ?m = "clearErr ctrlC k m"
  from up KeyMsg obtain fl where fl: "handleKey lib env msg k ?m = Some fl"
    by (auto simp: Update_KeyMsg split: option.splits)
  from handleKey_keeps [OF fl]
  have keeps: "case fl of
           Return r \<Rightarrow> keyMap (resModel r) = keyMap m
                        \<and> (quitting m \<longrightarrow> quitting (resModel r))
                        \<and> (err (resModel r) = err ?m \<or> quitting (resModel r))
         | Fall m' cmds \<Rightarrow> keyMap m' = keyMap m \<and> quitting m' = quitting m \<and> err m' = err ?m"
    by (cases fl) simp_all
  have res: "case fl of
               Return r' \<Rightarrow> r = r'
             | Fall m' cmds \<Rightarrow> r = finish lib env msg m' cmds"
    using up KeyMsg fl by (auto simp: Update_KeyMsg split: Flow.splits)
  from keeps res km have keymap: "keyMap (resModel r) = initialKeyMap"
    by (cases fl) simp_all
  from keeps res have errs: "quitting (resModel r) \<or> err (resModel r) = err ?m"
    and quits: "quitting m \<longrightarrow> quitting (resModel r)"
    by (cases fl; auto)+
  show ?thesis
  proof (cases "quitting m \<or> (\<forall>e. err ?m = Some e \<longrightarrow> IsNotExist e)")
    case True
    with errs quits keymap show ?thesis by auto
  next
    case False
    then have nq: "\<not> quitting m" and bad: "\<not> (\<forall>e. err ?m = Some e \<longrightarrow> IsNotExist e)"
      by simp_all
    from bad have "\<not> (\<forall>e. err m = Some e \<longrightarrow> IsNotExist e)"
      by (auto simp: clearErr_def split: option.splits if_splits)
    with inv nq have empty: "tasks m = []" "mode m = modeViewTasks" by auto
    from bad have "ctrlC \<or> k = ''q''"
      by (auto simp: clearErr_def split: option.splits if_splits)
    with wf KeyMsg have "k = ''q'' \<or> k = ''ctrl+c'' \<or> k = ''alt+ctrl+c''" by auto
    then consider "viewAction initialKeyMap k = ActQuit" | "viewAction initialKeyMap k = ActNone"
      by auto
    then show ?thesis
    proof cases
      case 1
      with fl km empty quitKey_quits [of env ?m] res keymap show ?thesis
        by (auto simp: handleKey_def)
    next
      case 2
      with fl km empty res keymap show ?thesis
        by (auto simp: handleKey_def)
    qed
  qed
qed

lemma reached_invariant:
  "reached lib m \<Longrightarrow>
   keyMap m = initialKeyMap
   \<and> (quitting m \<or> (\<forall>e. err m = Some e \<longrightarrow> IsNotExist e)
        \<or> (tasks m = [] \<and> mode m = modeViewTasks))"
proof (induction rule: reached.induct)
  case (start rd unmarshal)
  show ?case
    by (auto simp: initialModel_def loadTasksFromFile_def Let_def
          split: sum.splits if_splits)
next
  case (step m msg env r)
  then show ?case using Update_step_invariant [of m msg lib env r] by blast
qed

lemma reached_holds_no_error:
  "reached lib m \<Longrightarrow> \<not> quitting m \<Longrightarrow> tasks m \<noteq> [] \<Longrightarrow> \<forall>e. err m = Some e \<longrightarrow> IsNotExist e"
  using reached_invariant [of lib m] by blast

lemma clearErr_no_error: "\<forall>e. err m = Some e \<longrightarrow> IsNotExist e \<Longrightarrow> clearErr b k m = m"
  by (auto simp: clearErr_def split: option.splits)

subsection \<open>Navigation at the ends of the list\<close>

lemma Update_up_at_top:
  assumes "mode m = modeViewTasks" and "viewAction (keyMap m) k = ActUp"
    and "\<not> 0 < cursor m"
  shows "Update lib env (KeyMsg b k) m =
           Some (finish lib env (KeyMsg b k) (clearErr b k m) [])"
  using assms(3) by (simp add: Update_KeyMsg handleKey_view [OF assms(1,2)] upKey_def)

lemma Update_down_at_bottom:
  assumes "mode m = modeViewTasks" and "viewAction (keyMap m) k = ActDown"
    and "\<not> cursor m < int (length (tasks m)) - 1"
  shows "Update lib env (KeyMsg b k) m =
           Some (finish lib env (KeyMsg b k) (clearErr b k m) [])"
  using assms(3) by (simp add: Update_KeyMsg handleKey_view [OF assms(1,2)] downKey_def)

lemma finish_in_range:
  assumes "0 \<le> cursor m" and "cursor m < int (length (tasks m))"
  shows "cursor (resModel (finish lib env msg (clearErr b k m) cmds)) = cursor m"
    and "(resModel (finish lib env msg (clearErr b k m) cmds))
           \<lparr>viewport := viewport m, err := err m\<rparr> = m"
    and "err (resModel (finish lib env msg (clearErr b k m) cmds)) = err (clearErr b k m)"
    and "viewport (resModel (finish lib env msg (clearErr b k m) cmds)) =
           fst (vpUpdate lib msg
                 (vpSetContent lib (renderTasksView lib (renderClock env) (clearErr b k m))
                    (viewport m)))"
proof -
  have c: "clampCursor (clearErr b k m) = clearErr b k m"
    by (rule clampCursor_id) (use assms in simp_all)
  show "cursor (resModel (finish lib env msg (clearErr b k m) cmds)) = cursor m"
    by (simp add: c)
  have "(resModel (finish lib env msg (clearErr b k m) cmds))\<lparr>viewport := viewport m\<rparr>
          = (clearErr b k m)\<lparr>viewport := viewport m\<rparr>"
    by (simp add: finish_frame c)
  then have "(resModel (finish lib env msg (clearErr b k m) cmds))
               \<lparr>viewport := viewport m, err := err m\<rparr>
          = (clearErr b k m)\<lparr>viewport := viewport m, err := err m\<rparr>"
    by simp
  also have "\<dots> = m"
    by (simp add: clearErr_def split: option.splits)
  finally show "(resModel (finish lib env msg (clearErr b k m) cmds))
           \<lparr>viewport := viewport m, err := err m\<rparr> = m" .
  show "err (resModel (finish lib env msg (clearErr b k m) cmds)) = err (clearErr b k m)"
    by simp
  show "viewport (resModel (finish lib env msg (clearErr b k m) cmds)) =
           fst (vpUpdate lib msg
                 (vpSetContent lib (renderTasksView lib (renderClock env) (clearErr b k m))
                    (viewport m)))"
    by (simp add: finish_def Let_def split_def c)
qed

lemma Update_unbound_key:
  assumes "mode m = modeViewTasks" and "viewAction (keyMap m) k = ActNone"
  shows "Update lib env (KeyMsg b k) m =
           Some (finish lib env (KeyMsg b k) (clearErr b k m) [])"
  by (simp add: Update_KeyMsg handleKey_view [OF assms])

lemma startWith_fields [simp]:
  "tasks (startWith ts) = ts"
  "cursor (startWith ts) = 0"
  "keyMap (startWith ts) = initialKeyMap"
  "err (startWith ts) = None"
  "quitting (startWith ts) = False"
  "viewport (startWith ts) = \<lparr>YOffset = 0, Height = 20, Width = 80, content = []\<rparr>"
  "ts \<noteq> [] \<Longrightarrow> mode (startWith ts) = modeViewTasks"
  by (simp_all add: startWith_def initialModel_def loadTasksFromFile_def)

lemma reached_startWith: "reached lib (startWith ts)"
  unfolding startWith_def by (rule reached.start)

lemma lineCount_append: "lineCount (xs @ 10 # ys) = lineCount xs + lineCount ys"
  by (simp add: lineCount_def)

lemma lineCount_Join:
  "ls \<noteq> [] \<Longrightarrow> \<forall>l \<in> set ls. 10 \<notin> set l \<Longrightarrow> lineCount (Join ls [10]) = int (length ls)"
proof (induction ls "[10::nat]" rule: Join.induct)
  case 1
  then show ?case by simp
next
  case (2 x)
  then have "filter (\<lambda>r. r = 10) x = []" by (auto simp: filter_empty_conv)
  then show ?case by (simp add: lineCount_def)
next
  case (3 x y ys)
  then have "filter (\<lambda>r. r = 10) x = []" by (auto simp: filter_empty_conv)
  then have "lineCount x = 1" by (simp add: lineCount_def)
  moreover have "lineCount (Join (y # ys) [10]) = int (length (y # ys))"
    using 3 by simp
  ultimately show ?case by (simp add: lineCount_append)
qed

lemma set_truncateLoop: "set (truncateLoop lib avail w rs) \<subseteq> set rs"
  by (induction rs arbitrary: w) (auto simp: Let_def)

lemma descText_no_newline: "10 \<notin> set d \<Longrightarrow> 10 \<notin> set (descText lib avail d)"
  using set_truncateLoop [of lib avail 0 d] by (auto simp: descText_def str_def)

lemma taskRows_no_newline:
  "\<forall>t \<in> set ts. 10 \<notin> set (Description t) \<Longrightarrow>
   \<forall>row \<in> set (taskRows lib clk m i ts). 10 \<notin> set (rowDesc row)"
  by (induction ts arbitrary: i) (simp_all add: taskRow_def descText_no_newline)

lemma length_taskRows [simp]: "length (taskRows lib clk m i ts) = length ts"
  by (induction ts arbitrary: i) simp_all

lemma lineCount_render:
  assumes "renderRow lib = rowDesc" and "tasks m \<noteq> []"
    and "\<forall>t \<in> set (tasks m). 10 \<notin> set (Description t)"
  shows "lineCount (renderTasksView lib clk m) = int (length (tasks m))"
proof -
  let ?ls = "map rowDesc (taskRows lib clk m 0 (tasks m))"
  have rows: "taskRows lib clk m 0 (tasks m) \<noteq> []"
    using assms(2) by (cases "tasks m") simp_all
  then have "?ls \<noteq> []" by simp
  moreover have "\<forall>l \<in> set ?ls. 10 \<notin> set l"
    using taskRows_no_newline [OF assms(3), of lib clk m 0] by simp
  ultimately have "lineCount (Join ?ls [10]) = int (length ?ls)" by (rule lineCount_Join)
  with assms(1) rows show ?thesis by (simp add: renderTasksView_def Let_def)
qed

lemma finish_viewport:
  "viewport (resModel (finish lib env msg m cmds)) =
     fst (vpUpdate lib msg
           (vpSetContent lib (renderTasksView lib (renderClock env) (clampCursor m))
              (viewport (clampCursor m))))"
  by (simp add: finish_def Let_def split_def)

lemma clampCursor_viewport [simp]: "viewport (clampCursor m) = viewport m"
  by (simp add: clampCursor_def Let_def)

lemma scrollingLib_fields [simp]:
  "vpSetContent scrollingLib = scrollingSetContent"
  "vpUpdate scrollingLib = scrollingUpdate"
  "renderRow scrollingLib = rowDesc"
  by (simp_all add: scrollingLib_def plainLib_def)

text \<open>
  A session over 22 tasks, as it starts from a tasks file, after the page-down key: the
  cursor is still at 0 and the viewport, 20 lines high, has scrolled to offset 2.
\<close>

lemma after_page_down:
  assumes "ts = replicate 22 (taskWith Pending 0 0)"
  shows "\<exists>r. Update scrollingLib env (KeyMsg False ''pgdown'') (startWith ts) = Some r
           \<and> tasks (resModel r) = ts \<and> cursor (resModel r) = 0
           \<and> mode (resModel r) = modeViewTasks \<and> keyMap (resModel r) = initialKeyMap
           \<and> \<not> quitting (resModel r) \<and> err (resModel r) = None
           \<and> YOffset (viewport (resModel r)) = 2
           \<and> Height (viewport (resModel r)) = 20"
proof -
  let ?m = "startWith ts"
  have ne: "ts \<noteq> []" using assms by simp
  have nl: "\<forall>t \<in> set (tasks ?m). 10 \<notin> set (Description t)"
    using assms by (simp add: taskWith_def str_def)
  have c: "clearErr False ''pgdown'' ?m = ?m" by (simp add: clearErr_def)
  have cl: "clampCursor ?m = ?m" by (rule clampCursor_id) (use ne in simp_all)
  have u: "Update scrollingLib env (KeyMsg False ''pgdown'') ?m =
             Some (finish scrollingLib env (KeyMsg False ''pgdown'') ?m [])"
    using Update_unbound_key [of ?m "''pgdown''" scrollingLib env False] ne by (simp add: c)
  have "lineCount (renderTasksView scrollingLib (renderClock env) ?m) = int (length (tasks ?m))"
    by (rule lineCount_render) (use ne nl in simp_all)
  then have lc: "lineCount (renderTasksView scrollingLib (renderClock env) ?m) = 22"
    using assms by simp
  have "viewport (resModel (finish scrollingLib env (KeyMsg False ''pgdown'') ?m [])) =
          \<lparr>YOffset = 2, Height = 20, Width = 80,
           content = renderTasksView scrollingLib (renderClock env) ?m\<rparr>"
    by (simp add: finish_viewport cl scrollingSetContent_def scrollingUpdate_def scrollTo_def
          maxYOffset_def lc Let_def)
  with u ne cl show ?thesis by simp
qed

text \<open>
  C9 as stated fails for the viewport, whose offset is session state. A session over 22
  tasks that has started from its tasks file and seen the page-down key has its cursor
  at 0 and its viewport at offset 2; the up key then leaves the cursor at 0, and the
  viewport, which is handed the key, scrolls to offset 1.
\<close>

theorem navigation_boundary_counterexample:
  "reached scrollingLib
     (resModel (the (Update scrollingLib (envAt 5000) (KeyMsg False ''pgdown'')
                       (startWith (replicate 22 (taskWith Pending 0 0))))))
   \<and> \<not> quitting
     (resModel (the (Update scrollingLib (envAt 5000) (KeyMsg False ''pgdown'')
                       (startWith (replicate 22 (taskWith Pending 0 0))))))
   \<and> cursor
     (resModel (the (Update scrollingLib (envAt 5000) (KeyMsg False ''pgdown'')
                       (startWith (replicate 22 (taskWith Pending 0 0)))))) = 0
   \<and> YOffset (viewport
     (resModel (the (Update scrollingLib (envAt 5000) (KeyMsg False ''pgdown'')
                       (startWith (replicate 22 (taskWith Pending 0 0))))))) = 2
   \<and> cursor (resModel (the (Update scrollingLib (envAt 6000) (KeyMsg False ''up'')
     (resModel (the (Update scrollingLib (envAt 5000) (KeyMsg False ''pgdown'')
                       (startWith (replicate 22 (taskWith Pending 0 0))))))))) = 0
   \<and> YOffset (viewport (resModel (the (Update scrollingLib (envAt 6000) (KeyMsg False ''up'')
     (resModel (the (Update scrollingLib (envAt 5000) (KeyMsg False ''pgdown'')
                       (startWith (replicate 22 (taskWith Pending 0 0)))))))))) = 1"
proof -
  let ?ts = "replicate 22 (taskWith Pending 0 0)"
  from after_page_down [of ?ts "envAt 5000"] obtain r where
    r: "Update scrollingLib (envAt 5000) (KeyMsg False ''pgdown'') (startWith ?ts) = Some r"
      "tasks (resModel r) = ?ts" "cursor (resModel r) = 0"
      "mode (resModel r) = modeViewTasks" "keyMap (resModel r) = initialKeyMap"
      "\<not> quitting (resModel r)" "err (resModel r) = None"
      "YOffset (viewport (resModel r)) = 2" "Height (viewport (resModel r)) = 20"
    by auto
  let ?m = "resModel r"
  have reach: "reached scrollingLib ?m"
    by (rule reached.step [OF reached_startWith _ r(1)]) simp
  have ne: "tasks ?m \<noteq> []" by (simp add: r(2))
  have nl: "\<forall>t \<in> set (tasks ?m). 10 \<notin> set (Description t)"
    by (simp add: r(2) taskWith_def str_def)
  have c: "clearErr False ''up'' ?m = ?m" by (simp add: clearErr_def r(7))
  have cl: "clampCursor ?m = ?m" by (rule clampCursor_id) (simp_all add: r(2,3))
  have u: "Update scrollingLib (envAt 6000) (KeyMsg False ''up'') ?m =
             Some (finish scrollingLib (envAt 6000) (KeyMsg False ''up'') ?m [])"
    using Update_up_at_top [of ?m "''up''" scrollingLib "envAt 6000" False]
    by (simp add: r(3,4,5) c)
  have "lineCount (renderTasksView scrollingLib clk ?m) = int (length (tasks ?m))" for clk
    by (rule lineCount_render) (use ne nl in simp_all)
  then have lc: "lineCount (renderTasksView scrollingLib clk ?m) = 22" for clk
    by (simp add: r(2))
  have "YOffset (viewport (resModel (finish scrollingLib (envAt 6000) (KeyMsg False ''up'') ?m [])))
          = 1"
    by (simp add: finish_viewport cl scrollingSetContent_def scrollingUpdate_def scrollTo_def
          maxYOffset_def lc Let_def r(8,9))
  moreover
  have "cursor (resModel (finish scrollingLib (envAt 6000) (KeyMsg False ''up'') ?m [])) = 0"
    by (simp add: cl r(3))
  ultimately show ?thesis using r(1,3,6,8) reach u by simp
qed

text \<open>
  C9, amended. In viewing mode over a non-empty store, the up key with the cursor at 0
  and the down key with the cursor at the last index leave the cursor where it is (no
  wraparound). In a session in progress, that is one reached from the start of the
  session and not quitting, no field but the viewport changes: the viewport is given
  the freshly rendered list and then the key message. The same holds of any model that
  holds no error other than the file-absent one; in a model that does, the error is
  cleared as by any key, and nothing else but the viewport changes.
\<close>

theorem navigation_boundaries:
  assumes "mode m = modeViewTasks" and "tasks m \<noteq> []"
    and "(viewAction (keyMap m) k = ActUp \<and> cursor m = 0)
         \<or> (viewAction (keyMap m) k = ActDown \<and> cursor m = int (length (tasks m)) - 1)"
  shows "\<exists>r. Update lib env (KeyMsg b k) m = Some r
           \<and> cursor (resModel r) = cursor m
           \<and> (reached lib m \<and> \<not> quitting m \<longrightarrow> (resModel r)\<lparr>viewport := viewport m\<rparr> = m)
           \<and> ((\<forall>e. err m = Some e \<longrightarrow> IsNotExist e) \<longrightarrow>
                (resModel r)\<lparr>viewport := viewport m\<rparr> = m)
           \<and> (resModel r)\<lparr>viewport := viewport m, err := err m\<rparr> = m
           \<and> (err (resModel r) = err m
                \<or> (err (resModel r) = None \<and> (\<exists>e. err m = Some e \<and> \<not> IsNotExist e)))
           \<and> viewport (resModel r) =
                fst (vpUpdate lib (KeyMsg b k)
                      (vpSetContent lib
                         (renderTasksView lib (renderClock env) (clearErr b k m))
                         (viewport m)))"
proof -
  have u: "Update lib env (KeyMsg b k) m =
             Some (finish lib env (KeyMsg b k) (clearErr b k m) [])"
    using assms(3)
  proof
    assume "viewAction (keyMap m) k = ActUp \<and> cursor m = 0"
    then show ?thesis by (intro Update_up_at_top assms(1)) simp_all
  next
    assume "viewAction (keyMap m) k = ActDown \<and> cursor m = int (length (tasks m)) - 1"
    then show ?thesis by (intro Update_down_at_bottom assms(1)) simp_all
  qed
  have range: "0 \<le> cursor m" "cursor m < int (length (tasks m))"
    using assms(2,3) by auto
  let ?r = "finish lib env (KeyMsg b k) (clearErr b k m) []"
  have e: "err (resModel ?r) = err m
          \<or> (err (resModel ?r) = None \<and> (\<exists>e. err m = Some e \<and> \<not> IsNotExist e))"
    using err_clearErr [of b k m] by (simp only: finish_in_range(3) [OF range])
  have frame: "(\<forall>e. err m = Some e \<longrightarrow> IsNotExist e) \<longrightarrow>
                (resModel ?r)\<lparr>viewport := viewport m\<rparr> = m"
  proof
    assume ok: "\<forall>e. err m = Some e \<longrightarrow> IsNotExist e"
    then have "clearErr b k m = m" by (rule clearErr_no_error)
    moreover have "clampCursor m = m" by (rule clampCursor_id [OF range])
    ultimately show "(resModel ?r)\<lparr>viewport := viewport m\<rparr> = m"
      by (simp add: finish_frame)
  qed
  have progress: "reached lib m \<and> \<not> quitting m \<longrightarrow>
                    (resModel ?r)\<lparr>viewport := viewport m\<rparr> = m"
    using frame reached_holds_no_error [of lib m] assms(2) by blast
  from u e frame progress finish_in_range(1,2,4) [OF range, of lib env "KeyMsg b k" b k "[]"]
  show ?thesis by (intro exI [of _ ?r] conjI)
qed

theorem navigation_boundaries_witness:
  "(\<exists>r. Update plainLib (envAt 6000) (KeyMsg False ''up'')
           (startWith [taskWith Pending 0 0, taskWith Paused 5 0]) = Some r
      \<and> cursor (resModel r) = 0
      \<and> (resModel r)\<lparr>viewport := viewport (startWith [taskWith Pending 0 0, taskWith Paused 5 0])\<rparr>
          = startWith [taskWith Pending 0 0, taskWith Paused 5 0])
   \<and> (\<exists>r. Update plainLib (envAt 6000) (KeyMsg False ''down'')
           (sessionOf modeViewTasks [taskWith Pending 0 0, taskWith Paused 5 0] 1 0 20) = Some r
      \<and> cursor (resModel r) = 1
      \<and> (resModel r)\<lparr>viewport :=
            viewport (sessionOf modeViewTasks [taskWith Pending 0 0, taskWith Paused 5 0] 1 0 20)\<rparr>
          = sessionOf modeViewTasks [taskWith Pending 0 0, taskWith Paused 5 0] 1 0 20)"
proof
  let ?m = "startWith [taskWith Pending 0 0, taskWith Paused 5 0]"
  have h: "mode ?m = modeViewTasks" "tasks ?m \<noteq> []"
    "(viewAction (keyMap ?m) ''up'' = ActUp \<and> cursor ?m = 0)
     \<or> (viewAction (keyMap ?m) ''up'' = ActDown \<and> cursor ?m = int (length (tasks ?m)) - 1)"
    by simp_all
  have p: "reached plainLib ?m \<and> \<not> quitting ?m"
    by (simp add: reached_startWith)
  from navigation_boundaries [OF h, of plainLib "envAt 6000" False] obtain r where
    r: "Update plainLib (envAt 6000) (KeyMsg False ''up'') ?m = Some r"
      "cursor (resModel r) = cursor ?m"
      "reached plainLib ?m \<and> \<not> quitting ?m \<longrightarrow> (resModel r)\<lparr>viewport := viewport ?m\<rparr> = ?m"
    by (elim exE conjE) (rule that; assumption)
  from r(3) p have "(resModel r)\<lparr>viewport := viewport ?m\<rparr> = ?m" by (rule mp)
  with r(1,2)
  show "\<exists>r. Update plainLib (envAt 6000) (KeyMsg False ''up'') ?m = Some r
          \<and> cursor (resModel r) = 0 \<and> (resModel r)\<lparr>viewport := viewport ?m\<rparr> = ?m"
    by (intro exI [of _ r] conjI) simp_all
next
  let ?m = "sessionOf modeViewTasks [taskWith Pending 0 0, taskWith Paused 5 0] 1 0 20"
  have h: "mode ?m = modeViewTasks" "tasks ?m \<noteq> []"
    "(viewAction (keyMap ?m) ''down'' = ActUp \<and> cursor ?m = 0)
     \<or> (viewAction (keyMap ?m) ''down'' = ActDown \<and> cursor ?m = int (length (tasks ?m)) - 1)"
    by simp_all
  have p: "\<forall>e. err ?m = Some e \<longrightarrow> IsNotExist e" by simp
  from navigation_boundaries [OF h, of plainLib "envAt 6000" False] obtain r where
    r: "Update plainLib (envAt 6000) (KeyMsg False ''down'') ?m = Some r"
      "cursor (resModel r) = cursor ?m"
      "(\<forall>e. err ?m = Some e \<longrightarrow> IsNotExist e) \<longrightarrow> (resModel r)\<lparr>viewport := viewport ?m\<rparr> = ?m"
    by (elim exE conjE) (rule that; assumption)
  from r(3) p have "(resModel r)\<lparr>viewport := viewport ?m\<rparr> = ?m" by (rule mp)
  with r(1,2)
  show "\<exists>r. Update plainLib (envAt 6000) (KeyMsg False ''down'') ?m = Some r
          \<and> cursor (resModel r) = 1 \<and> (resModel r)\<lparr>viewport := viewport ?m\<rparr> = ?m"
    by (intro exI [of _ r] conjI) simp_all
qed

end
